theory Spec2Isabelle
  imports Main "HOL-Library.Word"
begin

section \<open>Go values, types and memory\<close>

text \<open>
  The package is a thin layer over Go's \<^verbatim>\<open>reflect\<close>. This section fixes the part of Go that
  the package's functions touch: types with their kinds, values, a heap for everything that
  is reached through a reference (slices, maps, pointers, the instance of a builder), and
  \<^verbatim>\<open>reflect.Value\<close>. Strings are byte strings. Names are ASCII. The types are \<^verbatim>\<open>bool\<close>,
  \<^verbatim>\<open>int\<close>, \<^verbatim>\<open>float64\<close>, \<^verbatim>\<open>string\<close>, slices, maps, pointers, structs without embedded
  fields, and defined types over these. A slice is the whole of its array.

  A builder is filled through \<^verbatim>\<open>AddField\<close> and the adders that call it; \<^verbatim>\<open>From\<close>,
  \<^verbatim>\<open>AddStructField\<close> and \<^verbatim>\<open>MapField\<close> are not part of the development. A panic is a
  result of its own, apart from a returned error.
\<close>

datatype 'a result = Ok 'a | Panic string

datatype kind = KInvalid | KBool | KInt | KFloat64 | KString | KSlice | KMap | KPtr | KStruct

text \<open>A struct type lists its fields as (name, tag, type, embedded). \<open>TNamed\<close> is a
  defined type (\<^verbatim>\<open>type Celsius float64\<close>) over its underlying type.\<close>

datatype gtype =
    TBool | TInt | TFloat64 | TString
  | TSlice gtype
  | TMap gtype gtype
  | TPtr gtype
  | TStruct "(string \<times> string \<times> gtype \<times> bool) list"
  | TNamed string gtype

type_synonym tfield = "string \<times> string \<times> gtype \<times> bool"

fun underlying :: "gtype \<Rightarrow> gtype" where
  "underlying (TNamed n t) = underlying t"
| "underlying t = t"

fun Kind_t :: "gtype \<Rightarrow> kind" where
  "Kind_t TBool = KBool"
| "Kind_t TInt = KInt"
| "Kind_t TFloat64 = KFloat64"
| "Kind_t TString = KString"
| "Kind_t (TSlice e) = KSlice"
| "Kind_t (TMap k v) = KMap"
| "Kind_t (TPtr e) = KPtr"
| "Kind_t (TStruct fs) = KStruct"
| "Kind_t (TNamed n t) = Kind_t t"

text \<open>\<^verbatim>\<open>Type.Name() != ""\<close>: the predeclared types and the defined types have a name, the
  composite type literals have none.\<close>

fun HasName :: "gtype \<Rightarrow> bool" where
  "HasName TBool = True"
| "HasName TInt = True"
| "HasName TFloat64 = True"
| "HasName TString = True"
| "HasName (TNamed n t) = True"
| "HasName t = False"

text \<open>Assignability as \<^verbatim>\<open>reflect.Value.Set\<close> checks it (no interface types here): identical
  types, or identical underlying types when at least one side is not a named type.\<close>

definition directlyAssignable :: "gtype \<Rightarrow> gtype \<Rightarrow> bool" where
  "directlyAssignable T V =
     (if T = V then True
      else if (HasName T \<and> HasName V) \<or> Kind_t T \<noteq> Kind_t V then False
      else underlying T = underlying V)"

text \<open>Values. A slice or a map is a reference to a heap object (\<open>None\<close> is nil); a pointer
  is an address and a field path into the struct stored there. Integers and floats are
  their 64 bits.\<close>

datatype gval =
    VBool bool
  | VInt "64 word"
  | VFloat "64 word"
  | VString string
  | VSlice "nat option"
  | VMap "nat option"
  | VPtr "(nat \<times> nat list) option"
  | VStruct "gval list"

datatype hobj = Cell gval | Array "gval list" | MapObj "(gval \<times> gval) list"

type_synonym heap = "hobj list"

text \<open>An interface value: nil, or a dynamic type with its value.\<close>

type_synonym iface = "(gtype \<times> gval) option"

fun zero :: "gtype \<Rightarrow> gval" where
  "zero TBool = VBool False"
| "zero TInt = VInt 0"
| "zero TFloat64 = VFloat 0"
| "zero TString = VString []"
| "zero (TSlice e) = VSlice None"
| "zero (TMap k v) = VMap None"
| "zero (TPtr e) = VPtr None"
| "zero (TStruct fs) = VStruct (map (\<lambda>f. zero (fst (snd (snd f)))) fs)"
| "zero (TNamed n t) = zero t"

fun sub :: "gval \<Rightarrow> nat list \<Rightarrow> gval option" where
  "sub v [] = Some v"
| "sub (VStruct vs) (i # p) = (if i < length vs then sub (vs ! i) p else None)"
| "sub v (i # p) = None"

fun upd :: "gval \<Rightarrow> nat list \<Rightarrow> gval \<Rightarrow> gval option" where
  "upd v [] x = Some x"
| "upd (VStruct vs) (i # p) x =
     (if i < length vs
      then (case upd (vs ! i) p x of None \<Rightarrow> None | Some w \<Rightarrow> Some (VStruct (vs[i := w])))
      else None)"
| "upd v (i # p) x = None"

definition cell :: "heap \<Rightarrow> nat \<Rightarrow> gval option" where
  "cell h a = (if a < length h then (case h ! a of Cell c \<Rightarrow> Some c | _ \<Rightarrow> None) else None)"

definition alloc :: "heap \<Rightarrow> hobj \<Rightarrow> nat \<times> heap" where
  "alloc h ob = (length h, h @ [ob])"

section \<open>The reflect operations the package calls\<close>

text \<open>\<^verbatim>\<open>Kind.String()\<close>.\<close>

fun kind_String :: "kind \<Rightarrow> string" where
  "kind_String KInvalid = ''invalid''"
| "kind_String KBool = ''bool''"
| "kind_String KInt = ''int''"
| "kind_String KFloat64 = ''float64''"
| "kind_String KString = ''string''"
| "kind_String KSlice = ''slice''"
| "kind_String KMap = ''map''"
| "kind_String KPtr = ''ptr''"
| "kind_String KStruct = ''struct''"

text \<open>A field is exported when its name starts with an upper-case letter.\<close>

definition isExported :: "string \<Rightarrow> bool" where
  "isExported n = (case n of [] \<Rightarrow> False | c # cs \<Rightarrow> 65 \<le> (of_char c :: nat) \<and> (of_char c :: nat) \<le> 90)"

text \<open>
  A \<^verbatim>\<open>reflect.Value\<close>: the zero Value, a value held by copy (what \<^verbatim>\<open>reflect.ValueOf\<close>
  returns; not addressable), or an addressable value, which names a place in the heap:
  the cell and the field path inside it. The flag says that the value was reached through
  an unexported field (\<^verbatim>\<open>flagRO\<close>).
\<close>

datatype rvalue = ZeroValue | Imm gtype gval bool | Ref gtype nat "nat list" bool

fun Kind_v :: "rvalue \<Rightarrow> kind" where
  "Kind_v ZeroValue = KInvalid"
| "Kind_v (Imm t v ro) = Kind_t t"
| "Kind_v (Ref t a p ro) = Kind_t t"

fun IsValid :: "rvalue \<Rightarrow> bool" where
  "IsValid ZeroValue = False"
| "IsValid v = True"

fun CanSet :: "rvalue \<Rightarrow> bool" where
  "CanSet (Ref t a p ro) = (\<not> ro)"
| "CanSet v = False"

fun Type_v :: "rvalue \<Rightarrow> gtype result" where
  "Type_v ZeroValue = Panic ''reflect: call of reflect.Value.Type on zero Value''"
| "Type_v (Imm t v ro) = Ok t"
| "Type_v (Ref t a p ro) = Ok t"

fun load :: "heap \<Rightarrow> rvalue \<Rightarrow> gval option" where
  "load h ZeroValue = None"
| "load h (Imm t v ro) = Some v"
| "load h (Ref t a p ro) = (case cell h a of None \<Rightarrow> None | Some c \<Rightarrow> sub c p)"

definition store :: "heap \<Rightarrow> nat \<Rightarrow> nat list \<Rightarrow> gval \<Rightarrow> heap option" where
  "store h a p x =
     (case cell h a of None \<Rightarrow> None
      | Some c \<Rightarrow> (case upd c p x of None \<Rightarrow> None | Some c' \<Rightarrow> Some (h[a := Cell c'])))"

definition ValueOf :: "iface \<Rightarrow> rvalue" where
  "ValueOf i = (case i of None \<Rightarrow> ZeroValue | Some (t, v) \<Rightarrow> Imm t v False)"

text \<open>A read or write that no well-typed Go state can reach (a reference to a missing
  heap object, a value that is not of its type) is reported under this message.\<close>

definition illTyped :: string where
  "illTyped = ''model: value does not fit its type''"

fun flagRO :: "rvalue \<Rightarrow> bool" where
  "flagRO ZeroValue = False"
| "flagRO (Imm t v ro) = ro"
| "flagRO (Ref t a p ro) = ro"

text \<open>\<^verbatim>\<open>Value.Elem\<close> on a pointer: the zero Value for nil, else the addressable pointee.\<close>

definition Elem_v :: "heap \<Rightarrow> rvalue \<Rightarrow> rvalue result" where
  "Elem_v h v =
     (if Kind_v v \<noteq> KPtr then Panic (if v = ZeroValue then ''reflect: call of reflect.Value.Elem on zero Value''
                 else ''reflect: call of reflect.Value.Elem on non-pointer Value'')
      else (case (Type_v v, load h v) of
              (Ok t, Some (VPtr None)) \<Rightarrow> Ok ZeroValue
            | (Ok t, Some (VPtr (Some (a, p)))) \<Rightarrow>
                (case underlying t of TPtr e \<Rightarrow> Ok (Ref e a p (flagRO v)) | _ \<Rightarrow> Panic illTyped)
            | _ \<Rightarrow> Panic illTyped))"

text \<open>\<^verbatim>\<open>Type.Elem\<close>, for the kinds of this model that have an element type.\<close>

definition Elem_t :: "gtype \<Rightarrow> gtype result" where
  "Elem_t t =
     (case underlying t of
        TPtr e \<Rightarrow> Ok e
      | TSlice e \<Rightarrow> Ok e
      | TMap k e \<Rightarrow> Ok e
      | _ \<Rightarrow> Panic ''reflect: Elem of invalid type'')"

definition fields_t :: "gtype \<Rightarrow> tfield list option" where
  "fields_t t = (case underlying t of TStruct fs \<Rightarrow> Some fs | _ \<Rightarrow> None)"

definition NumField_t :: "gtype \<Rightarrow> nat result" where
  "NumField_t t =
     (case fields_t t of None \<Rightarrow> Panic ''reflect: NumField of non-struct type''
      | Some fs \<Rightarrow> Ok (length fs))"

text \<open>\<^verbatim>\<open>Value.Field(i)\<close>: the i-th field of a struct value; it is addressable when the struct
  is, and read-only when the struct is or the field is unexported.\<close>

definition Field_v :: "rvalue \<Rightarrow> int \<Rightarrow> rvalue result" where
  "Field_v v i =
     (if Kind_v v \<noteq> KStruct then Panic (if v = ZeroValue then ''reflect: call of reflect.Value.Field on zero Value''
                 else ''reflect: call of reflect.Value.Field on non-struct Value'')
      else (case v of
              ZeroValue \<Rightarrow> Panic illTyped
            | Imm t x ro \<Rightarrow>
                (case (fields_t t, x) of
                   (Some fs, VStruct vs) \<Rightarrow>
                     if i < 0 \<or> int (length fs) \<le> i then Panic ''reflect: Field index out of range''
                     else if length vs \<noteq> length fs then Panic illTyped
                     else (case fs ! nat i of (n, tg, ft, em) \<Rightarrow>
                             Ok (Imm ft (vs ! nat i) (ro \<or> \<not> isExported n)))
                 | _ \<Rightarrow> Panic illTyped)
            | Ref t a p ro \<Rightarrow>
                (case fields_t t of
                   Some fs \<Rightarrow>
                     if i < 0 \<or> int (length fs) \<le> i then Panic ''reflect: Field index out of range''
                     else (case fs ! nat i of (n, tg, ft, em) \<Rightarrow>
                             Ok (Ref ft a (p @ [nat i]) (ro \<or> \<not> isExported n)))
                 | None \<Rightarrow> Panic illTyped)))"

text \<open>The position of the first field of that name on the top level.\<close>

fun field_index :: "tfield list \<Rightarrow> string \<Rightarrow> nat option" where
  "field_index [] name = None"
| "field_index (f # fs) name =
     (if fst f = name then Some 0
      else (case field_index fs name of None \<Rightarrow> None | Some i \<Rightarrow> Some (Suc i)))"

text \<open>\<^verbatim>\<open>Value.FieldByIndex\<close>: one index is \<^verbatim>\<open>Field\<close>; otherwise the value must be a struct
  and the indexes are followed in turn, stepping through a pointer to a struct after the
  first. With no index at all the value itself comes back.\<close>

fun followIndex :: "heap \<Rightarrow> rvalue \<Rightarrow> bool \<Rightarrow> int list \<Rightarrow> rvalue result" where
  "followIndex h v first [] = Ok v"
| "followIndex h v first (x # xs) =
     (case (if \<not> first \<and> Kind_v v = KPtr
            then (case Type_v v of
                    Ok t \<Rightarrow> (case Elem_t t of
                               Ok e \<Rightarrow> if Kind_t e = KStruct
                                        then (case Elem_v h v of
                                                Ok ZeroValue \<Rightarrow>
                                                  Panic ''reflect: indirection through nil pointer to embedded struct''
                                              | r \<Rightarrow> r)
                                        else Ok v
                             | Panic m \<Rightarrow> Panic m)
                  | Panic m \<Rightarrow> Panic m)
            else Ok v) of
        Panic m \<Rightarrow> Panic m
      | Ok w \<Rightarrow> (case Field_v w x of Panic m \<Rightarrow> Panic m | Ok u \<Rightarrow> followIndex h u False xs))"

definition FieldByIndex_v :: "heap \<Rightarrow> rvalue \<Rightarrow> int list \<Rightarrow> rvalue result" where
  "FieldByIndex_v h v index =
     (case index of
        [i] \<Rightarrow> Field_v v i
      | _ \<Rightarrow> if Kind_v v \<noteq> KStruct
             then Panic (if v = ZeroValue then ''reflect: call of reflect.Value.FieldByIndex on zero Value''
                    else ''reflect: call of reflect.Value.FieldByIndex on non-struct Value'')
             else followIndex h v True index)"

text \<open>One level of pointer taken off a type.\<close>

definition pointee :: "gtype \<Rightarrow> gtype" where
  "pointee t = (case underlying t of TPtr e \<Rightarrow> e | _ \<Rightarrow> t)"

definition embedded :: "tfield \<Rightarrow> bool" where
  "embedded f = snd (snd (snd f))"

lemma size_underlying: "size (underlying t) \<le> size t"
  by (induction t) auto

lemma size_pointee: "size (pointee t) \<le> size t"
proof (cases "underlying t")
  case (TPtr e)
  with size_underlying[of t] show ?thesis by (simp add: pointee_def)
qed (simp_all add: pointee_def)

lemma size_field: "(n, tg, ft, em) \<in> set fs \<Longrightarrow> size ft < size (TStruct fs)"
  by (induction fs) auto

lemma size_fields_t: "fields_t t = Some fs \<Longrightarrow> i < length fs \<Longrightarrow> fs ! i = (n, tg, ft, em)
    \<Longrightarrow> size ft < size t"
proof -
  assume a: "fields_t t = Some fs" "i < length fs" "fs ! i = (n, tg, ft, em)"
  then have u: "underlying t = TStruct fs" by (auto simp: fields_t_def split: gtype.splits)
  from a have "(n, tg, ft, em) \<in> set fs" by (metis nth_mem)
  from size_field[OF this] u size_underlying[of t] show ?thesis by simp
qed

text \<open>
  The fields of a name that a struct type shows through its embedded fields, each as its
  index path: a field of that name is a path of its own; an embedded field of another
  name, of type \<^verbatim>\<open>T\<close> or \<^verbatim>\<open>*T\<close> with \<^verbatim>\<open>T\<close> a struct, leads to the paths of \<^verbatim>\<open>T\<close>.
\<close>

function pathsIn :: "gtype \<Rightarrow> string \<Rightarrow> int list list" where
  "pathsIn t name =
     (case fields_t t of
        None \<Rightarrow> []
      | Some fs \<Rightarrow>
          concat (map (\<lambda>i. case fs ! i of (n, tg, ft, em) \<Rightarrow>
                           if n = name then [[int i]]
                           else if em then map ((#) (int i)) (pathsIn (pointee ft) name)
                           else [])
                   [0..<length fs]))"
  by pat_completeness auto
termination
proof (relation "measure (\<lambda>(t, name). size t)")
  show "wf (measure (\<lambda>(t, name). size t))" by simp
next
  fix t :: gtype and name :: string and fs i x n y tg z ft em
  assume "fields_t t = Some fs" "i \<in> set [0..<length fs]" "(n, y) = fs ! i" "(tg, z) = y" "(ft, em) = z"
  then have "fs ! i = (n, tg, ft, em)" "i < length fs" by auto
  from size_fields_t[OF \<open>fields_t t = Some fs\<close> this(2) this(1)] size_pointee[of ft]
  show "((pointee ft, name), (t, name)) \<in> measure (\<lambda>(t, name). size t)" by simp
qed

declare pathsIn.simps [simp del]

text \<open>The search of \<^verbatim>\<open>Type.FieldByName\<close> through embedded fields goes level by level and
  takes a field that is the only one of its name on the first level that has one.\<close>

definition shortestUnique :: "int list list \<Rightarrow> int list option" where
  "shortestUnique ps =
     (case ps of
        [] \<Rightarrow> None
      | p # qs \<Rightarrow>
          (let m = fold (\<lambda>q. min (length q)) qs (length p)
           in case filter (\<lambda>q. length q = m) ps of [q] \<Rightarrow> Some q | _ \<Rightarrow> None))"

text \<open>\<^verbatim>\<open>Type.FieldByName\<close>, as an index path: the first field of that name on the top
  level; without one, and when the struct has embedded fields, the search through them.
  The empty name finds nothing.\<close>

definition FieldByName_t :: "gtype \<Rightarrow> string \<Rightarrow> int list option" where
  "FieldByName_t t name =
     (case fields_t t of
        None \<Rightarrow> None
      | Some fs \<Rightarrow>
          if name = [] then None
          else (case field_index fs name of
                  Some i \<Rightarrow> Some [int i]
                | None \<Rightarrow> if list_ex embedded fs then shortestUnique (pathsIn t name) else None))"

text \<open>\<^verbatim>\<open>Value.FieldByName\<close>: the field at the path of \<^verbatim>\<open>Type.FieldByName\<close>, reached with
  \<^verbatim>\<open>FieldByIndex\<close>, or the zero Value when the type has no such field.\<close>

definition FieldByName_v :: "heap \<Rightarrow> rvalue \<Rightarrow> string \<Rightarrow> rvalue result" where
  "FieldByName_v h v name =
     (if Kind_v v \<noteq> KStruct
      then Panic (if v = ZeroValue then ''reflect: call of reflect.Value.FieldByName on zero Value''
                 else ''reflect: call of reflect.Value.FieldByName on non-struct Value'')
      else (case Type_v v of
              Ok t \<Rightarrow>
                (case FieldByName_t t name of
                   None \<Rightarrow> Ok ZeroValue
                 | Some index \<Rightarrow> FieldByIndex_v h v index)
            | Panic m \<Rightarrow> Panic m))"

text \<open>\<^verbatim>\<open>v.Set(x)\<close>: \<open>v\<close> must be addressable and not read-only, \<open>x\<close> valid and not
  read-only, and the type of \<open>x\<close> assignable to the type of \<open>v\<close>. The value of \<open>x\<close> is
  copied into the place of \<open>v\<close>: for a slice, a map or a pointer that is the reference.\<close>

definition Set_v :: "heap \<Rightarrow> rvalue \<Rightarrow> rvalue \<Rightarrow> heap result" where
  "Set_v h v x =
     (case v of
        ZeroValue \<Rightarrow> Panic ''reflect: call of reflect.Value.Set on zero Value''
      | Imm t y ro \<Rightarrow>
          if ro then Panic ''reflect: reflect.Value.Set using value obtained using unexported field''
          else Panic ''reflect: reflect.Value.Set using unaddressable value''
      | Ref t a p ro \<Rightarrow>
          if ro then Panic ''reflect: reflect.Value.Set using value obtained using unexported field''
          else (case x of
                  ZeroValue \<Rightarrow> Panic ''reflect: call of reflect.Value.Set on zero Value''
                | _ \<Rightarrow>
                  if flagRO x
                  then Panic ''reflect: reflect.Value.Set using value obtained using unexported field''
                  else (case Type_v x of
                          Panic m \<Rightarrow> Panic m
                        | Ok tx \<Rightarrow>
                            if \<not> directlyAssignable t tx
                            then Panic ''reflect.Set: value is not assignable to type''
                            else (case load h x of
                                    None \<Rightarrow> Panic illTyped
                                  | Some w \<Rightarrow> (case store h a p w of
                                                 None \<Rightarrow> Panic illTyped
                                               | Some h' \<Rightarrow> Ok h')))))"

text \<open>\<^verbatim>\<open>v.Interface()\<close>: a copy of the current value with its type.\<close>

definition Interface_v :: "heap \<Rightarrow> rvalue \<Rightarrow> iface result" where
  "Interface_v h v =
     (case v of
        ZeroValue \<Rightarrow> Panic ''reflect: call of reflect.Value.Interface on zero Value''
      | _ \<Rightarrow> if flagRO v
             then Panic ''reflect.Value.Interface: cannot return value obtained from unexported field or method''
             else (case (Type_v v, load h v) of
                     (Ok t, Some w) \<Rightarrow> Ok (Some (t, w))
                   | _ \<Rightarrow> Panic illTyped))"

text \<open>\<^verbatim>\<open>v.Addr()\<close>: a pointer to an addressable value.\<close>

definition Addr_v :: "rvalue \<Rightarrow> rvalue result" where
  "Addr_v v =
     (case v of
        Ref t a p ro \<Rightarrow> Ok (Imm (TPtr t) (VPtr (Some (a, p))) ro)
      | _ \<Rightarrow> Panic ''reflect.Value.Addr of unaddressable value'')"

section \<open>Struct tags\<close>

definition dq :: char where
  "dq = CHR 0x22"

definition backslash :: char where
  "backslash = CHR 0x5C"

text \<open>The characters a tag key may consist of: no space or control character, no colon,
  no double quote, no DEL.\<close>

definition keyChar :: "char \<Rightarrow> bool" where
  "keyChar c = ((of_char c :: nat) > 32 \<and> c \<noteq> CHR '':'' \<and> c \<noteq> dq \<and> (of_char c :: nat) \<noteq> 127)"

text \<open>The scan of \<^verbatim>\<open>StructTag.Lookup\<close> for the closing quote, started behind the opening one:
  a backslash skips the next byte. The result is the text between the quotes and the rest
  of the tag; there is none when the tag ends first.\<close>

fun scanQuoted :: "string \<Rightarrow> string \<Rightarrow> (string \<times> string) option" where
  "scanQuoted acc [] = None"
| "scanQuoted acc (c # cs) =
     (if c = dq then Some (rev acc, cs)
      else if c = backslash
      then (case cs of [] \<Rightarrow> None | d # ds \<Rightarrow> scanQuoted (d # c # acc) ds)
      else scanQuoted (c # acc) cs)"

lemma scanQuoted_shorter: "scanQuoted acc s = Some (q, r) \<Longrightarrow> length r < length s"
  by (induction acc s rule: scanQuoted.induct) (auto split: if_splits list.splits)

text \<open>
  \<^verbatim>\<open>StructTag.Lookup\<close>. \<^verbatim>\<open>strconv.Unquote\<close> is the parameter \<open>unq\<close>: it gets the quoted text,
  quotes included, and fails on a syntax error.
\<close>

function Lookup :: "(string \<Rightarrow> string option) \<Rightarrow> string \<Rightarrow> string \<Rightarrow> string option" where
  "Lookup unq tg key =
     (if tg = [] then None
      else (let t1 = dropWhile (\<lambda>c. c = CHR '' '') tg in
        if t1 = [] then None
        else (let name = takeWhile keyChar t1; r = dropWhile keyChar t1 in
          if name = [] \<or> length r \<le> 1 \<or> r ! 0 \<noteq> CHR '':'' \<or> r ! 1 \<noteq> dq then None
          else (case scanQuoted [] (drop 2 r) of
                  None \<Rightarrow> None
                | Some (q, rest) \<Rightarrow>
                    if key = name then unq ([dq] @ q @ [dq])
                    else Lookup unq rest key))))"
  by pat_completeness auto
termination
proof (relation "measure (\<lambda>(unq, tg, key). length tg)")
  show "wf (measure (\<lambda>(unq, tg, key). length tg))" by simp
next
  fix unq :: "string \<Rightarrow> string option" and tg key t1 name r x2 q rest
  assume t1: "t1 = dropWhile (\<lambda>c. c = CHR '' '') tg"
    and r: "r = dropWhile keyChar t1"
    and sc: "scanQuoted [] (drop 2 r) = Some x2" and x2: "(q, rest) = x2"
  from sc x2 have "length rest < length (drop 2 r)"
    using scanQuoted_shorter[of "[]" "drop 2 r" q rest] by simp
  also have "\<dots> \<le> length r" by simp
  also have "\<dots> \<le> length t1" unfolding r by (rule length_dropWhile_le)
  also have "\<dots> \<le> length tg" unfolding t1 by (rule length_dropWhile_le)
  finally show "((unq, rest, key), (unq, tg, key)) \<in> measure (\<lambda>(unq, tg, key). length tg)"
    by simp
qed

declare Lookup.simps [simp del]

definition Get :: "(string \<Rightarrow> string option) \<Rightarrow> string \<Rightarrow> string \<Rightarrow> string" where
  "Get unq tg key = (case Lookup unq tg key of None \<Rightarrow> [] | Some v \<Rightarrow> v)"

text \<open>\<^verbatim>\<open>strings.Contains\<close>.\<close>

fun Contains :: "string \<Rightarrow> string \<Rightarrow> bool" where
  "Contains [] t = (t = [])"
| "Contains (c # cs) t = (take (length t) (c # cs) = t \<or> Contains cs t)"

section \<open>The builder\<close>

text \<open>
  \<^verbatim>\<open>reflect.StructField\<close> as the builder fills it: \<^verbatim>\<open>AddField\<close> sets the name, the tag and
  the type and leaves \<^verbatim>\<open>PkgPath\<close>, \<^verbatim>\<open>Offset\<close> and \<^verbatim>\<open>Index\<close> at their zero values and
  \<^verbatim>\<open>Anonymous\<close> at false. The type is an interface and may be nil.
\<close>

record StructField =
  Name :: string
  Tag :: string
  Type :: "gtype option"
  Index :: "int list"

record Struct =
  tag :: string
  fieldsByName :: "StructField list"
  sstruct :: "gtype option"
  structValue :: rvalue
  made :: bool

definition IsRequired :: "(string \<Rightarrow> string option) \<Rightarrow> StructField \<Rightarrow> bool" where
  "IsRequired unq field = Contains (Get unq (Tag field) ''structs'') ''required''"

definition New :: "string \<Rightarrow> Struct" where
  "New tg = \<lparr>tag = tg, fieldsByName = [], sstruct = None, structValue = ZeroValue, made = False\<rparr>"

definition checkMade :: "Struct \<Rightarrow> string \<Rightarrow> unit result" where
  "checkMade s msg = (if \<not> made s then Panic msg else Ok ())"

text \<open>\<^verbatim>\<open>AddField\<close>. The variadic \<^verbatim>\<open>required\<close> is a list. A panic leaves the builder as it
  was; the result pairs the outcome with the builder after the call.\<close>

definition AddField ::
  "Struct \<Rightarrow> string \<Rightarrow> string \<Rightarrow> gtype option \<Rightarrow> bool list \<Rightarrow> unit result \<times> Struct" where
  "AddField s absolute_name enc_name typeOf required =
     (if absolute_name = [] then (Panic ''Field name cannot be empty'', s)
      else (let enc = (if enc_name = [] then absolute_name else enc_name) in
        if absolute_name \<in> set (map Name (fieldsByName s))
        then (Panic (''Field '' @ absolute_name @ '' already exists''), s)
        else (let tg = tag s @ '':'' @ [dq] @ enc @ [dq] @
                       (if (case required of [] \<Rightarrow> False | r # rs \<Rightarrow> r)
                        then '' structs:'' @ [dq] @ ''required'' @ [dq] else []);
                  field = \<lparr>Name = absolute_name, Tag = tg, Type = typeOf, Index = []\<rparr>
              in (Ok (), s\<lparr>made := False, fieldsByName := fieldsByName s @ [field]\<rparr>))))"

definition StringField :: "Struct \<Rightarrow> string \<Rightarrow> string \<Rightarrow> bool list \<Rightarrow> unit result \<times> Struct" where
  "StringField s absolute_name name required = AddField s absolute_name name (Some TString) required"

definition IntField :: "Struct \<Rightarrow> string \<Rightarrow> string \<Rightarrow> bool list \<Rightarrow> unit result \<times> Struct" where
  "IntField s absolute_name name required = AddField s absolute_name name (Some TInt) required"

definition FloatField :: "Struct \<Rightarrow> string \<Rightarrow> string \<Rightarrow> bool list \<Rightarrow> unit result \<times> Struct" where
  "FloatField s absolute_name name required = AddField s absolute_name name (Some TFloat64) required"

definition BoolField :: "Struct \<Rightarrow> string \<Rightarrow> string \<Rightarrow> bool list \<Rightarrow> unit result \<times> Struct" where
  "BoolField s absolute_name name required = AddField s absolute_name name (Some TBool) required"

definition SliceField ::
  "Struct \<Rightarrow> string \<Rightarrow> string \<Rightarrow> gtype option \<Rightarrow> bool list \<Rightarrow> unit result \<times> Struct" where
  "SliceField s absolute_name name typeOf required =
     (case typeOf of
        None \<Rightarrow> (Panic ''runtime error: invalid memory address or nil pointer dereference'', s)
      | Some t \<Rightarrow> AddField s absolute_name name (Some (TSlice t)) required)"

definition StructField_add ::
  "Struct \<Rightarrow> string \<Rightarrow> string \<Rightarrow> Struct \<Rightarrow> bool list \<Rightarrow> unit result \<times> Struct" where
  "StructField_add s absolute_name name other required =
     AddField s absolute_name name (sstruct other) required"

text \<open>
  \<^verbatim>\<open>reflect.StructOf\<close> on descriptors with an empty \<^verbatim>\<open>PkgPath\<close>: it panics on a field with no
  name, with a name that is not an identifier, with no type, with a name that starts with
  a lower-case letter or an underscore, and on a repeated name.
\<close>

definition isLetter :: "char \<Rightarrow> bool" where
  "isLetter c = (let n = (of_char c :: nat) in (65 \<le> n \<and> n \<le> 90) \<or> (97 \<le> n \<and> n \<le> 122))"

definition isDigit :: "char \<Rightarrow> bool" where
  "isDigit c = (let n = (of_char c :: nat) in 48 \<le> n \<and> n \<le> 57)"

definition isValidFieldName :: "string \<Rightarrow> bool" where
  "isValidFieldName n =
     (case n of [] \<Rightarrow> False
      | c # cs \<Rightarrow> (isLetter c \<or> c = CHR ''_'') \<and>
                  list_all (\<lambda>d. isLetter d \<or> d = CHR ''_'' \<or> isDigit d) cs)"

fun structOfFields :: "StructField list \<Rightarrow> string list \<Rightarrow> tfield list result" where
  "structOfFields [] seen = Ok []"
| "structOfFields (f # fs) seen =
     (if Name f = [] then Panic ''reflect.StructOf: field has no name''
      else if \<not> isValidFieldName (Name f) then Panic ''reflect.StructOf: field has invalid name''
      else (case Type f of
              None \<Rightarrow> Panic ''reflect.StructOf: field has no type''
            | Some t \<Rightarrow>
                if \<not> isExported (Name f)
                then Panic ''reflect.StructOf: field is unexported but missing PkgPath''
                else if Name f \<in> set seen then Panic ''reflect.StructOf: duplicate field''
                else (case structOfFields fs (Name f # seen) of
                        Panic m \<Rightarrow> Panic m
                      | Ok r \<Rightarrow> Ok ((Name f, Tag f, t, False) # r))))"

definition StructOf :: "StructField list \<Rightarrow> gtype result" where
  "StructOf fs = (case structOfFields fs [] of Panic m \<Rightarrow> Panic m | Ok r \<Rightarrow> Ok (TStruct r))"

text \<open>\<^verbatim>\<open>Make\<close>: the type is synthesised only when the builder is not made; a fresh zero
  instance is allocated every time.\<close>

definition Make :: "Struct \<Rightarrow> heap \<Rightarrow> unit result \<times> Struct \<times> heap" where
  "Make s h =
     (case (if \<not> made s
            then (case StructOf (fieldsByName s) of
                    Panic m \<Rightarrow> Panic m
                  | Ok t \<Rightarrow> Ok (s\<lparr>sstruct := Some t, made := True\<rparr>))
            else Ok s) of
        Panic m \<Rightarrow> (Panic m, s, h)
      | Ok s1 \<Rightarrow>
          if made s1
          then (case sstruct s1 of
                  None \<Rightarrow> (Panic ''reflect: New(nil)'', s1, h)
                | Some t \<Rightarrow>
                    (let (a, h') = alloc h (Cell (zero t))
                     in (Ok (), s1\<lparr>structValue := Ref t a [] False\<rparr>, h')))
          else (Ok (), s1, h))"

definition Remake :: "Struct \<Rightarrow> heap \<Rightarrow> unit result \<times> Struct \<times> heap" where
  "Remake s h = Make (s\<lparr>made := False\<rparr>) h"

section \<open>Accessors\<close>

definition nilDeref :: string where
  "nilDeref = ''runtime error: invalid memory address or nil pointer dereference''"

definition FieldByName :: "Struct \<Rightarrow> heap \<Rightarrow> string \<Rightarrow> rvalue result" where
  "FieldByName s h name =
     (case checkMade s ''Cannot get field by name if struct has not been made'' of
        Panic m \<Rightarrow> Panic m
      | Ok u \<Rightarrow> FieldByName_v h (structValue s) name)"

text \<open>\<^verbatim>\<open>Type.Field(i)\<close>: the descriptor of the i-th field, with its index.\<close>

definition Field_t :: "gtype \<Rightarrow> int \<Rightarrow> StructField result" where
  "Field_t t i =
     (case fields_t t of
        None \<Rightarrow> Panic ''reflect: Field of non-struct type''
      | Some fs \<Rightarrow>
          if i < 0 \<or> int (length fs) \<le> i then Panic ''reflect: Field index out of bounds''
          else (case fs ! nat i of (n, tg, ft, em) \<Rightarrow>
                  Ok \<lparr>Name = n, Tag = tg, Type = Some ft, Index = [i]\<rparr>))"

definition Field :: "Struct \<Rightarrow> int \<Rightarrow> StructField result" where
  "Field s index =
     (case checkMade s ''Cannot get field by index if struct has not been made'' of
        Panic m \<Rightarrow> Panic m
      | Ok u \<Rightarrow> (case sstruct s of None \<Rightarrow> Panic nilDeref | Some t \<Rightarrow> Field_t t index))"

definition IsValid_s :: "Struct \<Rightarrow> bool" where
  "IsValid_s s = (made s \<and> IsValid (structValue s))"

definition NumField :: "Struct \<Rightarrow> nat result" where
  "NumField s =
     (if \<not> made s then Ok 0
      else (case sstruct s of None \<Rightarrow> Panic nilDeref | Some t \<Rightarrow> NumField_t t))"

definition NumUninitializedField :: "Struct \<Rightarrow> nat" where
  "NumUninitializedField s = length (fieldsByName s)"

definition Interface :: "Struct \<Rightarrow> heap \<Rightarrow> iface result" where
  "Interface s h =
     (case checkMade s ''Cannot get interface if struct has not been made'' of
        Panic m \<Rightarrow> Panic m
      | Ok u \<Rightarrow> Interface_v h (structValue s))"

definition PtrTo :: "Struct \<Rightarrow> heap \<Rightarrow> iface result" where
  "PtrTo s h =
     (case checkMade s ''Cannot get pointer to if struct has not been made'' of
        Panic m \<Rightarrow> Panic m
      | Ok u \<Rightarrow> (case Addr_v (structValue s) of
                  Panic m \<Rightarrow> Panic m
                | Ok p \<Rightarrow> Interface_v h p))"

text \<open>The \<^verbatim>\<open>interface{}\<close> argument of the setters: a \<^verbatim>\<open>reflect.Value\<close>, which \<^verbatim>\<open>valueOf\<close>
  passes through, or any other value (or nil), which it hands to \<^verbatim>\<open>reflect.ValueOf\<close>.\<close>

datatype arg = Reflected rvalue | Plain iface

fun valueOf :: "arg \<Rightarrow> rvalue" where
  "valueOf (Reflected v) = v"
| "valueOf (Plain i) = ValueOf i"

text \<open>\<^verbatim>\<open>if v.Kind() == reflect.Ptr { v = v.Elem() }\<close>, as the setters and the deep copy
  do it: one level of pointer is taken off.\<close>

definition derefPtr :: "heap \<Rightarrow> rvalue \<Rightarrow> rvalue result" where
  "derefPtr h v = (if Kind_v v = KPtr then Elem_v h v else Ok v)"

text \<open>The setters write the instance in the heap; the builder itself is only read.\<close>

definition SetField :: "Struct \<Rightarrow> heap \<Rightarrow> string \<Rightarrow> arg \<Rightarrow> unit result \<times> heap" where
  "SetField s h name value =
     (case checkMade s ''Cannot set field if struct has not been made'' of
        Panic m \<Rightarrow> (Panic m, h)
      | Ok u \<Rightarrow>
          (case FieldByName_v h (structValue s) name of
             Panic m \<Rightarrow> (Panic m, h)
           | Ok field \<Rightarrow>
               if \<not> IsValid field then (Panic (''Field '' @ name @ '' does not exist''), h)
               else (case derefPtr h (valueOf value) of
                       Panic m \<Rightarrow> (Panic m, h)
                     | Ok v \<Rightarrow>
                         if Kind_v field \<noteq> Kind_v v
                         then (Panic (''Cannot set field '' @ name @ '' with value of type '' @
                                      kind_String (Kind_v v)), h)
                         else (case Set_v h field v of
                                 Panic m \<Rightarrow> (Panic m, h)
                               | Ok h' \<Rightarrow> (Ok (), h')))))"

text \<open>\<^verbatim>\<open>%d\<close> of an int.\<close>

fun digits :: "nat \<Rightarrow> nat \<Rightarrow> string" where
  "digits 0 n = []"
| "digits (Suc k) n =
     (if n < 10 then [char_of (48 + n)] else digits k (n div 10) @ [char_of (48 + n mod 10)])"

definition showInt :: "int \<Rightarrow> string" where
  "showInt i = (if i < 0 then ''-'' @ digits (Suc (nat (- i))) (nat (- i))
                else digits (Suc (nat i)) (nat i))"

definition SetFieldByIndex :: "Struct \<Rightarrow> heap \<Rightarrow> int \<Rightarrow> arg \<Rightarrow> unit result \<times> heap" where
  "SetFieldByIndex s h index value =
     (case checkMade s ''Cannot set field if struct has not been made'' of
        Panic m \<Rightarrow> (Panic m, h)
      | Ok u \<Rightarrow>
          (case Field_v (structValue s) index of
             Panic m \<Rightarrow> (Panic m, h)
           | Ok field \<Rightarrow>
               if \<not> IsValid field then (Panic (''Field '' @ showInt index @ '' does not exist''), h)
               else (case derefPtr h (valueOf value) of
                       Panic m \<Rightarrow> (Panic m, h)
                     | Ok v \<Rightarrow>
                         if Kind_v field \<noteq> Kind_v v
                         then (Panic (''Cannot set field '' @ showInt index @
                                      '' with value of type '' @ kind_String (Kind_v v)), h)
                         else (case Set_v h field v of
                                 Panic m \<Rightarrow> (Panic m, h)
                               | Ok h' \<Rightarrow> (Ok (), h')))))"

definition GetField :: "Struct \<Rightarrow> heap \<Rightarrow> string \<Rightarrow> iface result" where
  "GetField s h name =
     (case checkMade s ''Cannot get field if struct has not been made'' of
        Panic m \<Rightarrow> Panic m
      | Ok u \<Rightarrow>
          (case FieldByName_v h (structValue s) name of
             Panic m \<Rightarrow> Panic m
           | Ok field \<Rightarrow>
               if \<not> IsValid field then Panic (''Field '' @ name @ '' does not exist'')
               else Interface_v h field))"

section \<open>Deep copy\<close>

text \<open>The first loop of \<^verbatim>\<open>DeepCopy\<close>: every descriptor of the source is added to the new
  builder, its encoding name and its required marker read back from the tag.\<close>

fun addFields ::
  "(string \<Rightarrow> string option) \<Rightarrow> string \<Rightarrow> StructField list \<Rightarrow> Struct \<Rightarrow> unit result \<times> Struct" where
  "addFields unq stag [] newStruct = (Ok (), newStruct)"
| "addFields unq stag (field # rest) newStruct =
     (case AddField newStruct (Name field) (Get unq (Tag field) stag) (Type field)
             [Get unq (Tag field) ''structs'' = ''required''] of
        (Panic m, n') \<Rightarrow> (Panic m, n')
      | (Ok u, n') \<Rightarrow> addFields unq stag rest n')"

text \<open>The second loop: one step for one descriptor. Both places are addressed by the
  descriptor's \<^verbatim>\<open>Index\<close>.\<close>

definition copyField :: "heap \<Rightarrow> Struct \<Rightarrow> Struct \<Rightarrow> StructField \<Rightarrow> heap result" where
  "copyField h s newStruct field =
     (case FieldByIndex_v h (structValue newStruct) (Index field) of
        Panic m \<Rightarrow> Panic m
      | Ok n0 \<Rightarrow>
     (case derefPtr h n0 of
        Panic m \<Rightarrow> Panic m
      | Ok newFieldByIndex \<Rightarrow>
     (case FieldByIndex_v h (structValue s) (Index field) of
        Panic m \<Rightarrow> Panic m
      | Ok f0 \<Rightarrow>
     (case derefPtr h f0 of
        Panic m \<Rightarrow> Panic m
      | Ok fieldByIndex \<Rightarrow>
          if Kind_v fieldByIndex \<noteq> Kind_v newFieldByIndex
          then Panic (''Cannot deep copy field '' @ Name field @ '', because the types are different'')
          else if \<not> CanSet newFieldByIndex
          then Panic (''Cannot deep copy field '' @ Name field @ '', because it cannot be set'')
          else Set_v h newFieldByIndex fieldByIndex))))"

fun copyFields :: "heap \<Rightarrow> Struct \<Rightarrow> Struct \<Rightarrow> StructField list \<Rightarrow> string option \<times> heap" where
  "copyFields h s newStruct [] = (None, h)"
| "copyFields h s newStruct (field # rest) =
     (case copyField h s newStruct field of
        Panic m \<Rightarrow> (Some m, h)
      | Ok h' \<Rightarrow> copyFields h' s newStruct rest)"

text \<open>\<^verbatim>\<open>DeepCopy\<close>: the new builder, or the panic, and the heap after the call.\<close>

definition DeepCopy :: "(string \<Rightarrow> string option) \<Rightarrow> Struct \<Rightarrow> heap \<Rightarrow> Struct result \<times> heap" where
  "DeepCopy unq s h =
     (case checkMade s ''Cannot deep copy if struct has not been made'' of
        Panic m \<Rightarrow> (Panic m, h)
      | Ok u \<Rightarrow>
          (case addFields unq (tag s) (fieldsByName s) (New (tag s)) of
             (Panic m, n1) \<Rightarrow> (Panic m, h)
           | (Ok u1, n1) \<Rightarrow>
               (case Make n1 h of
                  (Panic m, n2, h2) \<Rightarrow> (Panic m, h2)
                | (Ok u2, newStruct, h2) \<Rightarrow>
                    (case copyFields h2 s newStruct (fieldsByName s) of
                       (Some m, h3) \<Rightarrow> (Panic m, h3)
                     | (None, h3) \<Rightarrow> (Ok newStruct, h3)))))"

section \<open>Scan\<close>

text \<open>One round of the loop of \<^verbatim>\<open>scanInto\<close>, for the source field at position \<open>i\<close>. A
  \<^verbatim>\<open>continue\<close> returns the heap as it is.\<close>

definition scanStep ::
  "heap \<Rightarrow> gtype \<Rightarrow> rvalue \<Rightarrow> rvalue \<Rightarrow> string list \<Rightarrow> nat \<Rightarrow> heap result" where
  "scanStep h typeOfSource valueOfSource valueOfDestElem names i =
     (case Field_t typeOfSource (int i) of
        Panic m \<Rightarrow> Panic m
      | Ok field \<Rightarrow>
          if names \<noteq> [] \<and> Name field \<notin> set names then Ok h
          else (case Field_v valueOfSource (int i) of
                  Panic m \<Rightarrow> Panic m
                | Ok value \<Rightarrow>
                    (case FieldByName_v h valueOfDestElem (Name field) of
                       Panic m \<Rightarrow> Panic m
                     | Ok destField \<Rightarrow>
                         if \<not> IsValid destField then Ok h
                         else if \<not> CanSet destField then Ok h
                         else (case (Type_v destField, Type_v value) of
                                 (Ok td, Ok tv) \<Rightarrow>
                                   if td \<noteq> tv then Ok h else Set_v h destField value
                               | (Panic m, r) \<Rightarrow> Panic m
                               | (Ok td, Panic m) \<Rightarrow> Panic m))))"

fun scanLoop ::
  "heap \<Rightarrow> gtype \<Rightarrow> rvalue \<Rightarrow> rvalue \<Rightarrow> string list \<Rightarrow> nat list \<Rightarrow> string option \<times> heap" where
  "scanLoop h typeOfSource valueOfSource valueOfDestElem names [] = (None, h)"
| "scanLoop h typeOfSource valueOfSource valueOfDestElem names (i # is) =
     (case scanStep h typeOfSource valueOfSource valueOfDestElem names i of
        Panic m \<Rightarrow> (Some m, h)
      | Ok h' \<Rightarrow> scanLoop h' typeOfSource valueOfSource valueOfDestElem names is)"

text \<open>The head of \<^verbatim>\<open>scanInto\<close>: when the source's type is a pointer, the type and the
  value are both replaced by what they point to.\<close>

definition unwrapSource :: "heap \<Rightarrow> iface \<Rightarrow> gtype \<Rightarrow> (gtype \<times> rvalue) result" where
  "unwrapSource h s ts =
     (if Kind_t ts = KPtr
      then (case Elem_t ts of
              Panic m \<Rightarrow> Panic m
            | Ok e \<Rightarrow> (case Elem_v h (ValueOf s) of
                        Panic m \<Rightarrow> Panic m
                      | Ok v \<Rightarrow> Ok (e, v)))
      else Ok (ts, ValueOf s))"

text \<open>\<^verbatim>\<open>scanInto\<close>: a panic, or the returned error (\<open>None\<close> is nil), and the heap after the
  call. \<^verbatim>\<open>reflect.TypeOf\<close> of a nil interface is nil, and \<^verbatim>\<open>Kind\<close> on it is a nil
  dereference.\<close>

definition scanInto :: "iface \<Rightarrow> iface \<Rightarrow> string list \<Rightarrow> heap \<Rightarrow> string option result \<times> heap" where
  "scanInto s dest names h =
     (case s of
        None \<Rightarrow> (Panic nilDeref, h)
      | Some (ts, vs) \<Rightarrow>
     (case unwrapSource h s ts of
        Panic m \<Rightarrow> (Panic m, h)
      | Ok (typeOfSource, valueOfSource) \<Rightarrow>
          if Kind_t typeOfSource \<noteq> KStruct then (Ok (Some ''Source is not a struct''), h)
          else (case dest of
                  None \<Rightarrow> (Panic nilDeref, h)
                | Some (td, vd) \<Rightarrow>
                    if Kind_t td \<noteq> KPtr then (Ok (Some ''Destination is not a pointer''), h)
                    else (case Elem_t td of
                            Panic m \<Rightarrow> (Panic m, h)
                          | Ok te \<Rightarrow>
                              if Kind_t te \<noteq> KStruct
                              then (Ok (Some ''Destination is not a pointer to a struct''), h)
                              else (case Elem_v h (ValueOf dest) of
                                      Panic m \<Rightarrow> (Panic m, h)
                                    | Ok valueOfDestElem \<Rightarrow>
                                        (case NumField_t typeOfSource of
                                           Panic m \<Rightarrow> (Panic m, h)
                                         | Ok numFields \<Rightarrow>
                                             (case scanLoop h typeOfSource valueOfSource
                                                     valueOfDestElem names [0..<numFields] of
                                                (Some m, h') \<Rightarrow> (Panic m, h')
                                              | (None, h') \<Rightarrow> (Ok None, h'))))))))"

text \<open>The source of \<^verbatim>\<open>ScanInto\<close>: a \<^verbatim>\<open>*Struct\<close> (possibly nil), or anything else.\<close>

datatype source = StructPtr "Struct option" | Other iface

definition ScanInto :: "source \<Rightarrow> iface \<Rightarrow> string list \<Rightarrow> heap \<Rightarrow> string option result \<times> heap" where
  "ScanInto s dest names h =
     (case s of
        StructPtr None \<Rightarrow> (Panic nilDeref, h)
      | StructPtr (Some st) \<Rightarrow>
          (case Interface st h of
             Panic m \<Rightarrow> (Panic m, h)
           | Ok iFace \<Rightarrow> scanInto iFace dest names h)
      | Other iFace \<Rightarrow> scanInto iFace dest names h)"

section \<open>Encoding\<close>

text \<open>\<^verbatim>\<open>json.Marshal\<close> and \<^verbatim>\<open>json.Unmarshal\<close> are parameters: the first maps a value to bytes
  and an error, the second decodes into the place a pointer names and returns an error.\<close>

definition MarshalJSON ::
  "(iface \<Rightarrow> heap \<Rightarrow> string \<times> string option) \<Rightarrow> Struct \<Rightarrow> heap \<Rightarrow> (string \<times> string option) result" where
  "MarshalJSON marshal s h =
     (case checkMade s ''Cannot marshal if struct has not been made'' of
        Panic m \<Rightarrow> Panic m
      | Ok u \<Rightarrow> (case Interface_v h (structValue s) of
                  Panic m \<Rightarrow> Panic m
                | Ok i \<Rightarrow> Ok (marshal i h)))"

definition UnmarshalJSON ::
  "(string \<Rightarrow> iface \<Rightarrow> heap \<Rightarrow> string option \<times> heap) \<Rightarrow> Struct \<Rightarrow> heap \<Rightarrow> string
     \<Rightarrow> string option result \<times> heap" where
  "UnmarshalJSON unmarshal s h data =
     (case checkMade s ''Cannot unmarshal if struct has not been made'' of
        Panic m \<Rightarrow> (Panic m, h)
      | Ok u \<Rightarrow> (case Addr_v (structValue s) of
                  Panic m \<Rightarrow> (Panic m, h)
                | Ok p \<Rightarrow> (case Interface_v h p of
                            Panic m \<Rightarrow> (Panic m, h)
                          | Ok i \<Rightarrow> (case unmarshal data i h of (e, h') \<Rightarrow> (Ok e, h')))))"

section \<open>Validators\<close>

text \<open>A validator is a Go function value: it may have effects, so it maps the value and
  the state of the program to its error (\<open>None\<close> is nil) and the state after the call.\<close>

type_synonym ('v, 'e, 'st) validator = "'v \<Rightarrow> 'st \<Rightarrow> 'e option \<times> 'st"

text \<open>The registry is a Go map: nil, or a map from field names to lists of validators.\<close>

type_synonym ('v, 'e, 'st) ValidatorMap = "(string \<rightharpoonup> ('v, 'e, 'st) validator list) option"

text \<open>Indexing a Go map, also the nil map, with a missing key gives the nil slice.\<close>

definition entry :: "('v, 'e, 'st) ValidatorMap \<Rightarrow> string \<Rightarrow> ('v, 'e, 'st) validator list" where
  "entry v field =
     (case v of None \<Rightarrow> [] | Some m \<Rightarrow> (case m field of None \<Rightarrow> [] | Some l \<Rightarrow> l))"

text \<open>An assignment to an entry of the nil map panics. \<^verbatim>\<open>Add\<close> and \<^verbatim>\<open>Set\<close> return the map
  after the assignment.\<close>

definition nilMap :: string where
  "nilMap = ''assignment to entry in nil map''"

definition Add ::
  "('v, 'e, 'st) ValidatorMap \<Rightarrow> string \<Rightarrow> ('v, 'e, 'st) validator
     \<Rightarrow> ('v, 'e, 'st) ValidatorMap result" where
  "Add v field validator =
     (case v of
        None \<Rightarrow> Panic nilMap
      | Some m \<Rightarrow> Ok (Some (m(field \<mapsto> entry v field @ [validator]))))"

definition Set ::
  "('v, 'e, 'st) ValidatorMap \<Rightarrow> string \<Rightarrow> ('v, 'e, 'st) validator
     \<Rightarrow> ('v, 'e, 'st) ValidatorMap result" where
  "Set v field validator =
     (case v of
        None \<Rightarrow> Panic nilMap
      | Some m \<Rightarrow> Ok (Some (m(field \<mapsto> [validator]))))"

text \<open>\<^verbatim>\<open>delete\<close> on the nil map does nothing.\<close>

definition Remove :: "('v, 'e, 'st) ValidatorMap \<Rightarrow> string \<Rightarrow> ('v, 'e, 'st) ValidatorMap" where
  "Remove v field = (case v of None \<Rightarrow> None | Some m \<Rightarrow> Some (m(field := None)))"

fun runValidators :: "('v, 'e, 'st) validator list \<Rightarrow> 'v \<Rightarrow> 'st \<Rightarrow> 'e option \<times> 'st" where
  "runValidators [] value st = (None, st)"
| "runValidators (validator # rest) value st =
     (case validator value st of
        (Some err, st') \<Rightarrow> (Some err, st')
      | (None, st') \<Rightarrow> runValidators rest value st')"

definition Validate :: "('v, 'e, 'st) ValidatorMap \<Rightarrow> string \<Rightarrow> 'v \<Rightarrow> 'st \<Rightarrow> 'e option \<times> 'st" where
  "Validate v field value st = runValidators (entry v field) value st"

section \<open>What a tag written by \<^verbatim>\<open>AddField\<close> reads back as\<close>

text \<open>The tag \<^verbatim>\<open>AddField\<close> formats for the key \<open>k\<close>, the encoding name \<open>e\<close> and the
  required marker \<open>r\<close>.\<close>

definition encTag :: "string \<Rightarrow> string \<Rightarrow> bool \<Rightarrow> string" where
  "encTag k e r =
     k @ '':'' @ [dq] @ e @ [dq] @ (if r then '' structs:'' @ [dq] @ ''required'' @ [dq] else [])"

text \<open>A key that \<^verbatim>\<open>Lookup\<close> can find: not empty and made of key characters. Text that
  needs no escaping inside double quotes: printable ASCII other than the double quote and
  the backslash. On such text \<^verbatim>\<open>strconv.Unquote\<close> only strips the quotes, which is all
  that is assumed of the parameter \<open>unq\<close>.\<close>

definition keyOk :: "string \<Rightarrow> bool" where
  "keyOk k = (k \<noteq> [] \<and> list_all keyChar k)"

definition plainChar :: "char \<Rightarrow> bool" where
  "plainChar c =
     (32 \<le> (of_char c :: nat) \<and> (of_char c :: nat) < 127 \<and> c \<noteq> dq \<and> c \<noteq> backslash)"

definition unquotesPlain :: "(string \<Rightarrow> string option) \<Rightarrow> bool" where
  "unquotesPlain unq = (\<forall>x. list_all plainChar x \<longrightarrow> unq ([dq] @ x @ [dq]) = Some x)"

text \<open>\<^verbatim>\<open>strconv.Unquote\<close> on quoted plain text; it stands in for the parameter where a
  concrete builder is run.\<close>

definition unquotePlain :: "string \<Rightarrow> string option" where
  "unquotePlain q =
     (if 2 \<le> length q \<and> hd q = dq \<and> last q = dq \<and> list_all plainChar (butlast (tl q))
      then Some (butlast (tl q)) else None)"

lemma unquotesPlain_unquotePlain: "unquotesPlain unquotePlain"
  by (simp add: unquotesPlain_def unquotePlain_def butlast_append)

lemma scanQuoted_plain:
  "list_all plainChar e \<Longrightarrow> scanQuoted acc (e @ dq # rest) = Some (rev acc @ e, rest)"
  by (induction e arbitrary: acc) (auto simp: plainChar_def)

lemma Lookup_Nil: "Lookup unq [] key = None"
  by (simp add: Lookup.simps)

lemma split_key:
  assumes "keyOk k"
  shows "dropWhile (\<lambda>c. c = CHR '' '') (k @ CHR '':'' # r) = k @ CHR '':'' # r"
    and "takeWhile keyChar (k @ CHR '':'' # r) = k"
    and "dropWhile keyChar (k @ CHR '':'' # r) = CHR '':'' # r"
proof -
  from assms obtain c cs where k: "k = c # cs" and c: "keyChar c"
    by (cases k) (auto simp: keyOk_def)
  from c have "c \<noteq> CHR '' ''" by (auto simp: keyChar_def)
  then show "dropWhile (\<lambda>c. c = CHR '' '') (k @ CHR '':'' # r) = k @ CHR '':'' # r"
    by (simp add: k)
  have nk: "\<not> keyChar (CHR '':'')" by (simp add: keyChar_def)
  from assms have all: "\<forall>x\<in>set k. keyChar x" by (simp add: keyOk_def list_all_iff)
  show "takeWhile keyChar (k @ CHR '':'' # r) = k"
    using all nk by (simp add: takeWhile_tail)
  show "dropWhile keyChar (k @ CHR '':'' # r) = CHR '':'' # r"
    using all nk by (simp add: dropWhile_append3)
qed

lemma Lookup_entry:
  assumes k: "keyOk k" and e: "list_all plainChar e"
  shows "Lookup unq (k @ '':'' @ [dq] @ e @ [dq] @ rest) key
         = (if key = k then unq ([dq] @ e @ [dq]) else Lookup unq rest key)"
proof -
  let ?r = "dq # e @ dq # rest"
  have tg: "k @ '':'' @ [dq] @ e @ [dq] @ rest = k @ CHR '':'' # ?r" by simp
  from k have ne: "k \<noteq> []" by (simp add: keyOk_def)
  show ?thesis
    unfolding tg
    apply (subst Lookup.simps)
    apply (simp add: split_key[OF k] ne Let_def scanQuoted_plain[OF e, of "[]", simplified])
    done
qed

lemma Lookup_entry_sp:
  assumes k: "keyOk k" and e: "list_all plainChar e"
  shows "Lookup unq (CHR '' '' # k @ '':'' @ [dq] @ e @ [dq] @ rest) key
         = (if key = k then unq ([dq] @ e @ [dq]) else Lookup unq rest key)"
proof -
  let ?r = "dq # e @ dq # rest"
  have tg: "CHR '' '' # k @ '':'' @ [dq] @ e @ [dq] @ rest = CHR '' '' # k @ CHR '':'' # ?r"
    by simp
  from k have ne: "k \<noteq> []" by (simp add: keyOk_def)
  show ?thesis
    unfolding tg
    apply (subst Lookup.simps)
    apply (simp add: split_key[OF k] ne Let_def scanQuoted_plain[OF e, of "[]", simplified])
    done
qed

lemma structs_key: "keyOk ''structs''"
  by (simp add: keyOk_def keyChar_def dq_def)

lemma required_plain: "list_all plainChar ''required''"
  by (simp add: plainChar_def dq_def backslash_def)

lemma Get_encTag:
  assumes k: "keyOk k" and e: "list_all plainChar e" and u: "unquotesPlain unq"
    and ks: "k \<noteq> ''structs''"
  shows "Get unq (encTag k e r) k = e"
    and "(Get unq (encTag k e r) ''structs'' = ''required'') = r"
proof -
  from u e have ue: "unq ([dq] @ e @ [dq]) = Some e"
    by (simp add: unquotesPlain_def)
  from u required_plain have ur: "unq ([dq] @ ''required'' @ [dq]) = Some ''required''"
    unfolding unquotesPlain_def by blast
  show "Get unq (encTag k e r) k = e"
    unfolding Get_def encTag_def using Lookup_entry[OF k e, of unq _ k] ue by simp
  have rest: "Lookup unq ('' structs:'' @ [dq] @ ''required'' @ [dq]) ''structs'' = Some ''required''"
    using Lookup_entry_sp[OF structs_key required_plain, of unq "[]" "''structs''"] ur by simp
  have "Lookup unq (encTag k e r) ''structs'' = (if r then Some ''required'' else None)"
    unfolding encTag_def using Lookup_entry[OF k e, of unq _ "''structs''"] ks rest
    by (simp add: Lookup_Nil)
  then show "(Get unq (encTag k e r) ''structs'' = ''required'') = r"
    by (simp add: Get_def)
qed

section \<open>Operations on a builder that is not made\<close>

text \<open>
  Claim C3. On a builder whose \<open>made\<close> flag is false, each of \<^verbatim>\<open>FieldByName\<close>, \<^verbatim>\<open>Field\<close>,
  \<^verbatim>\<open>GetField\<close>, \<^verbatim>\<open>SetField\<close>, \<^verbatim>\<open>SetFieldByIndex\<close>, \<^verbatim>\<open>Interface\<close>, \<^verbatim>\<open>PtrTo\<close>, \<^verbatim>\<open>DeepCopy\<close>,
  \<^verbatim>\<open>MarshalJSON\<close> and \<^verbatim>\<open>UnmarshalJSON\<close> panics with its "has not been made" message, whatever
  its other arguments are, and the heap (where the instance lives) is left as it was. None
  of them writes the builder.
\<close>

theorem not_made_panics:
  assumes "\<not> made s"
  shows "FieldByName s h name = Panic ''Cannot get field by name if struct has not been made''
     \<and> Field s index = Panic ''Cannot get field by index if struct has not been made''
     \<and> GetField s h name = Panic ''Cannot get field if struct has not been made''
     \<and> SetField s h name value = (Panic ''Cannot set field if struct has not been made'', h)
     \<and> SetFieldByIndex s h index value = (Panic ''Cannot set field if struct has not been made'', h)
     \<and> Interface s h = Panic ''Cannot get interface if struct has not been made''
     \<and> PtrTo s h = Panic ''Cannot get pointer to if struct has not been made''
     \<and> DeepCopy unq s h = (Panic ''Cannot deep copy if struct has not been made'', h)
     \<and> MarshalJSON marshal s h = Panic ''Cannot marshal if struct has not been made''
     \<and> UnmarshalJSON unmarshal s h data = (Panic ''Cannot unmarshal if struct has not been made'', h)"
  using assms
  by (simp add: FieldByName_def Field_def GetField_def SetField_def SetFieldByIndex_def
      Interface_def PtrTo_def DeepCopy_def MarshalJSON_def UnmarshalJSON_def checkMade_def)

theorem not_made_panics_witness:
  "\<not> made (New ''json'')
   \<and> GetField (New ''json'') [] ''Name'' = Panic ''Cannot get field if struct has not been made''
   \<and> SetField (New ''json'') [] ''Name'' (Plain (Some (TString, VString ''Nigel'')))
       = (Panic ''Cannot set field if struct has not been made'', [])
   \<and> DeepCopy (\<lambda>q. None) (New ''json'') []
       = (Panic ''Cannot deep copy if struct has not been made'', [])"
proof -
  have nm: "\<not> made (New ''json'')"
    by (simp add: New_def)
  show ?thesis
    using nm not_made_panics [OF nm, of "[]" "''Name''" 0 "Plain (Some (TString, VString ''Nigel''))"
        "\<lambda>q. None" "\<lambda>i h. ([], None)" "\<lambda>d i h. (None, h)" "[]"]
    by simp
qed

text \<open>
  Claim C10. \<^verbatim>\<open>ScanInto\<close> with a \<^verbatim>\<open>*Struct\<close> source that is not made panics in \<^verbatim>\<open>Interface\<close>,
  before \<^verbatim>\<open>scanInto\<close> is reached: the outcome is a panic, not a returned error, for every
  destination and every list of names, and the heap is unchanged.
\<close>

theorem ScanInto_not_made_panics:
  assumes "\<not> made st"
  shows "ScanInto (StructPtr (Some st)) dest names h
         = (Panic ''Cannot get interface if struct has not been made'', h)"
  using assms by (simp add: ScanInto_def Interface_def checkMade_def)

theorem ScanInto_not_made_panics_witness:
  "\<not> made (New ''json'')
   \<and> ScanInto (StructPtr (Some (New ''json''))) None [] []
       = (Panic ''Cannot get interface if struct has not been made'', [])"
proof -
  have nm: "\<not> made (New ''json'')"
    by (simp add: New_def)
  show ?thesis
    using nm ScanInto_not_made_panics [OF nm, of None "[]" "[]"] by simp
qed

section \<open>Adding a field\<close>

text \<open>The variadic \<^verbatim>\<open>required\<close> counts when it is there and its first element is true.\<close>

definition required0 :: "bool list \<Rightarrow> bool" where
  "required0 req = (case req of [] \<Rightarrow> False | r # rs \<Rightarrow> r)"

text \<open>
  Claim C6. \<^verbatim>\<open>AddField\<close> panics exactly when the internal name is empty or is the name of a
  pending descriptor, whatever the encoding name and the type are, and then the builder
  is unchanged. Otherwise it appends one descriptor with that name and type whose tag is
  the one formatted for the encoding name (the internal name when the encoding name is
  empty), and the builder is no longer made. Read back with \<^verbatim>\<open>Tag.Get\<close> under the builder's
  key, that tag gives the encoding name, when the key can be a tag key, is not
  \<^verbatim>\<open>structs\<close>, and the name needs no escaping.
\<close>

theorem AddField_contract:
  "((\<exists>m. fst (AddField s n e t req) = Panic m) = (n = [] \<or> n \<in> Name ` set (fieldsByName s)))
   \<and> ((\<exists>m. fst (AddField s n e t req) = Panic m) \<longrightarrow> snd (AddField s n e t req) = s)
   \<and> (n \<noteq> [] \<and> n \<notin> Name ` set (fieldsByName s) \<longrightarrow>
        AddField s n e t req =
          (Ok (), s\<lparr>made := False,
                    fieldsByName := fieldsByName s @
                      [\<lparr>Name = n, Tag = encTag (tag s) (if e = [] then n else e) (required0 req),
                        Type = t, Index = []\<rparr>]\<rparr>))
   \<and> (n \<noteq> [] \<and> n \<notin> Name ` set (fieldsByName s) \<and> keyOk (tag s) \<and> tag s \<noteq> ''structs''
        \<and> list_all plainChar (if e = [] then n else e) \<and> unquotesPlain unq \<longrightarrow>
        Get unq (Tag (last (fieldsByName (snd (AddField s n e t req))))) (tag s)
          = (if e = [] then n else e))"
proof -
  have tg: "tag s @ '':'' @ [dq] @ x @ [dq] @ (if required0 req then '' structs:'' @ [dq] @ ''required'' @ [dq] else [])
        = encTag (tag s) x (required0 req)" for x
    by (simp add: encTag_def)
  have ok: "AddField s n e t req =
          (Ok (), s\<lparr>made := False,
                    fieldsByName := fieldsByName s @
                      [\<lparr>Name = n, Tag = encTag (tag s) (if e = [] then n else e) (required0 req),
                        Type = t, Index = []\<rparr>]\<rparr>)"
    if "n \<noteq> []" "n \<notin> Name ` set (fieldsByName s)"
    using that tg[of "if e = [] then n else e"]
    by (simp add: AddField_def Let_def required0_def encTag_def)
  have p1: "(\<exists>m. fst (AddField s n e t req) = Panic m) = (n = [] \<or> n \<in> Name ` set (fieldsByName s))"
    by (auto simp: AddField_def Let_def)
  have p2: "(\<exists>m. fst (AddField s n e t req) = Panic m) \<longrightarrow> snd (AddField s n e t req) = s"
    by (auto simp: AddField_def Let_def)
  have p4: "Get unq (Tag (last (fieldsByName (snd (AddField s n e t req))))) (tag s)
          = (if e = [] then n else e)"
    if "n \<noteq> []" "n \<notin> Name ` set (fieldsByName s)" "keyOk (tag s)" "tag s \<noteq> ''structs''"
       "list_all plainChar (if e = [] then n else e)" "unquotesPlain unq"
    using Get_encTag(1)[OF that(3) that(5) that(6) that(4)] ok[OF that(1) that(2)]
    by simp
  show ?thesis using ok p1 p2 p4 by blast
qed

theorem AddField_contract_witness:
  "AddField (New ''json'') ''Name'' [] (Some TString) [True]
     = (Ok (), \<lparr>tag = ''json'',
                fieldsByName = [\<lparr>Name = ''Name'', Tag = encTag ''json'' ''Name'' True,
                                 Type = Some TString, Index = []\<rparr>],
                sstruct = None, structValue = ZeroValue, made = False\<rparr>)
   \<and> Get unquotePlain
        (Tag (last (fieldsByName (snd (AddField (New ''json'') ''Name'' [] (Some TString) [True])))))
        ''json'' = ''Name''
   \<and> (\<exists>m. fst (AddField (New ''json'') [] ''x'' (Some TString) []) = Panic m)
   \<and> snd (AddField (New ''json'') [] ''x'' (Some TString) []) = New ''json''"
proof -
  let ?s = "New ''json''"
  have a: "''Name'' \<noteq> [] \<and> ''Name'' \<notin> Name ` set (fieldsByName ?s)"
    by (simp add: New_def)
  have b: "keyOk (tag ?s) \<and> tag ?s \<noteq> ''structs'' \<and> list_all plainChar (if [] = [] then ''Name'' else [])"
    by (simp add: New_def keyOk_def keyChar_def plainChar_def dq_def backslash_def)
  note c1 = AddField_contract [of ?s "''Name''" "[]" "Some TString" "[True]" unquotePlain]
  note c2 = AddField_contract [of ?s "[]" "''x''" "Some TString" "[]" unquotePlain]
  have r1: "AddField ?s ''Name'' [] (Some TString) [True]
     = (Ok (), \<lparr>tag = ''json'',
                fieldsByName = [\<lparr>Name = ''Name'', Tag = encTag ''json'' ''Name'' True,
                                 Type = Some TString, Index = []\<rparr>],
                sstruct = None, structValue = ZeroValue, made = False\<rparr>)"
    using c1 [THEN conjunct2, THEN conjunct2, THEN conjunct1] a
    by (simp add: New_def required0_def)
  have r2: "Get unquotePlain
        (Tag (last (fieldsByName (snd (AddField ?s ''Name'' [] (Some TString) [True])))))
        ''json'' = ''Name''"
    using c1 [THEN conjunct2, THEN conjunct2, THEN conjunct2] a b unquotesPlain_unquotePlain
    by (simp add: New_def)
  have r3: "\<exists>m. fst (AddField ?s [] ''x'' (Some TString) []) = Panic m"
    using c2 [THEN conjunct1] by simp
  have r4: "snd (AddField ?s [] ''x'' (Some TString) []) = ?s"
    using c2 [THEN conjunct2, THEN conjunct1] r3 by blast
  show ?thesis using r1 r2 r3 r4 by blast
qed

section \<open>The validator registry\<close>

text \<open>The state after the validators of a list have run in order on a value, each
  from the state the one before left.\<close>

definition stateAfter :: "('v, 'e, 'st) validator list \<Rightarrow> 'v \<Rightarrow> 'st \<Rightarrow> 'st" where
  "stateAfter l value st = foldl (\<lambda>s g. snd (g value s)) st l"

lemma stateAfter_Cons: "stateAfter (g # l) value st = stateAfter l value (snd (g value st))"
  by (simp add: stateAfter_def)

lemma runValidators_pass:
  "(\<forall>k<length l. fst ((l ! k) value (stateAfter (take k l) value st)) = None)
     \<Longrightarrow> runValidators l value st = (None, stateAfter l value st)"
proof (induction l arbitrary: st)
  case Nil
  then show ?case by (simp add: stateAfter_def)
next
  case (Cons g l)
  from Cons.prems[rule_format, of 0] have g: "fst (g value st) = None"
    by (simp add: stateAfter_def)
  then obtain st' where gs: "g value st = (None, st')" by (cases "g value st") auto
  have "\<forall>k<length l. fst ((l ! k) value (stateAfter (take k l) value st')) = None"
  proof (intro allI impI)
    fix k assume "k < length l"
    with Cons.prems[rule_format, of "Suc k"] gs
    show "fst ((l ! k) value (stateAfter (take k l) value st')) = None"
      by (simp add: stateAfter_Cons)
  qed
  from Cons.IH[OF this] gs show ?case by (simp add: stateAfter_Cons)
qed

lemma runValidators_fail:
  "k < length l \<Longrightarrow> (\<forall>i<k. fst ((l ! i) value (stateAfter (take i l) value st)) = None)
     \<Longrightarrow> (l ! k) value (stateAfter (take k l) value st) = (Some err, st2)
     \<Longrightarrow> runValidators l value st = (Some err, st2)"
proof (induction l arbitrary: st k)
  case Nil
  then show ?case by simp
next
  case (Cons g l)
  show ?case
  proof (cases k)
    case 0
    with Cons.prems(3) show ?thesis by (simp add: stateAfter_def)
  next
    case (Suc k')
    from Cons.prems(2)[rule_format, of 0] Suc have g: "fst (g value st) = None"
      by (simp add: stateAfter_def)
    then obtain st' where gs: "g value st = (None, st')" by (cases "g value st") auto
    have a: "k' < length l" using Cons.prems(1) Suc by simp
    have b: "\<forall>i<k'. fst ((l ! i) value (stateAfter (take i l) value st')) = None"
    proof (intro allI impI)
      fix i assume "i < k'"
      with Cons.prems(2)[rule_format, of "Suc i"] Suc gs
      show "fst ((l ! i) value (stateAfter (take i l) value st')) = None"
        by (simp add: stateAfter_Cons)
    qed
    have c: "(l ! k') value (stateAfter (take k' l) value st') = (Some err, st2)"
      using Cons.prems(3) Suc gs by (simp add: stateAfter_Cons)
    from Cons.IH[OF a b c] gs show ?thesis by simp
  qed
qed

text \<open>Two validators that count their calls in the state, to run the registry on.\<close>

definition countPass :: "(int, string, nat) validator" where
  "countPass x n = (None, Suc n)"

definition countMax5 :: "(int, string, nat) validator" where
  "countMax5 x n = (if 5 < x then Some ''too big'' else None, Suc n)"

text \<open>
  Claim C9, amended. Let \<open>l\<close> be the validators a registry holds for a field, in the
  order in which they were added; there are none when the registry is the nil map or has
  no entry for the field. When every validator of \<open>l\<close> returns nil on the value, each at
  the state the ones before it left, \<^verbatim>\<open>Validate\<close> returns nil and the state after all of
  them, each run once. When the validator at position \<open>k\<close> is the first to return an
  error, \<^verbatim>\<open>Validate\<close> returns that error and the state that validator left: the later
  ones are not called. \<^verbatim>\<open>Remove\<close> leaves the field without validators and the other
  fields as they were, also on the nil map. On a registry that is not nil, \<^verbatim>\<open>Add\<close> puts
  the validator at the end of the field's list and \<^verbatim>\<open>Set\<close> makes the list that one
  validator, both leaving the other fields as they were.
\<close>

theorem Validate_contract:
  "(\<forall>l. entry v f = l \<and> (\<forall>k<length l. fst ((l ! k) value (stateAfter (take k l) value st)) = None) \<longrightarrow>
        Validate v f value st = (None, stateAfter l value st))
   \<and> (\<forall>l k err st2. entry v f = l \<and> k < length l
          \<and> (\<forall>i<k. fst ((l ! i) value (stateAfter (take i l) value st)) = None)
          \<and> (l ! k) value (stateAfter (take k l) value st) = (Some err, st2) \<longrightarrow>
        Validate v f value st = (Some err, st2))
   \<and> (v = None \<longrightarrow> entry v f = [])
   \<and> (\<forall>m. v = Some m \<longrightarrow> entry v f = (case m f of None \<Rightarrow> [] | Some l \<Rightarrow> l))
   \<and> entry (Remove v f) f = [] \<and> Validate (Remove v f) f value st = (None, st)
   \<and> (\<forall>f'. f' \<noteq> f \<longrightarrow> entry (Remove v f) f' = entry v f')
   \<and> ((v = None) = (Remove v f = None))
   \<and> (\<forall>m. v = Some m \<longrightarrow>
        (\<exists>m'. Add v f fn = Ok (Some m') \<and> m' f = Some (entry v f @ [fn])
              \<and> (\<forall>f'. f' \<noteq> f \<longrightarrow> m' f' = m f'))
      \<and> (\<exists>m'. Set v f fn = Ok (Some m') \<and> m' f = Some [fn]
              \<and> (\<forall>f'. f' \<noteq> f \<longrightarrow> m' f' = m f')))"
proof -
  have p1: "\<forall>l. entry v f = l \<and> (\<forall>k<length l. fst ((l ! k) value (stateAfter (take k l) value st)) = None) \<longrightarrow>
        Validate v f value st = (None, stateAfter l value st)"
    using runValidators_pass[of "entry v f" "value" st] by (simp add: Validate_def)
  have p2: "\<forall>l k err st2. entry v f = l \<and> k < length l
          \<and> (\<forall>i<k. fst ((l ! i) value (stateAfter (take i l) value st)) = None)
          \<and> (l ! k) value (stateAfter (take k l) value st) = (Some err, st2) \<longrightarrow>
        Validate v f value st = (Some err, st2)"
    using runValidators_fail[of _ "entry v f" "value" st] by (auto simp: Validate_def)
  have p3: "v = None \<longrightarrow> entry v f = []"
    by (simp add: entry_def)
  have p4: "\<forall>m. v = Some m \<longrightarrow> entry v f = (case m f of None \<Rightarrow> [] | Some l \<Rightarrow> l)"
    by (simp add: entry_def)
  have p5: "entry (Remove v f) f = []"
    by (cases v) (auto simp: entry_def Remove_def)
  have p6: "Validate (Remove v f) f value st = (None, st)"
    using p5 by (simp add: Validate_def)
  have p7: "\<forall>f'. f' \<noteq> f \<longrightarrow> entry (Remove v f) f' = entry v f'"
    by (cases v) (auto simp: entry_def Remove_def)
  have p8: "(v = None) = (Remove v f = None)"
    by (cases v) (auto simp: Remove_def)
  have p9: "\<forall>m. v = Some m \<longrightarrow>
        (\<exists>m'. Add v f fn = Ok (Some m') \<and> m' f = Some (entry v f @ [fn])
              \<and> (\<forall>f'. f' \<noteq> f \<longrightarrow> m' f' = m f'))
      \<and> (\<exists>m'. Set v f fn = Ok (Some m') \<and> m' f = Some [fn]
              \<and> (\<forall>f'. f' \<noteq> f \<longrightarrow> m' f' = m f'))"
    by (auto simp: Add_def Set_def)
  show ?thesis
    by (intro conjI) (rule p1, rule p2, rule p3, rule p4, rule p5, rule p6, rule p7, rule p8, rule p9)
qed

text \<open>The registry after \<^verbatim>\<open>Add\<close> of \<open>countPass\<close>, \<open>countMax5\<close> and \<open>countPass\<close> for the
  field \<^verbatim>\<open>age\<close>, starting from the empty map.\<close>

definition ageRegistry :: "(int, string, nat) ValidatorMap" where
  "ageRegistry = Some [''age'' \<mapsto> [countPass, countMax5, countPass]]"

theorem Validate_contract_witness:
  "Add (Some Map.empty) ''age'' countPass = Ok (Some [''age'' \<mapsto> [countPass]])
   \<and> Add (Some [''age'' \<mapsto> [countPass]]) ''age'' countMax5 = Ok (Some [''age'' \<mapsto> [countPass, countMax5]])
   \<and> Add (Some [''age'' \<mapsto> [countPass, countMax5]]) ''age'' countPass = Ok ageRegistry
   \<and> Validate ageRegistry ''age'' 7 0 = (Some ''too big'', 2)
   \<and> Validate ageRegistry ''age'' 3 0 = (None, 3)
   \<and> Validate (Remove ageRegistry ''age'') ''age'' 7 0 = (None, 0)
   \<and> Validate ageRegistry ''name'' 7 0 = (None, 0)
   \<and> Set ageRegistry ''age'' countMax5 = Ok (Some [''age'' \<mapsto> [countMax5]])"
proof -
  let ?l = "[countPass, countMax5, countPass]"
  note c7 = Validate_contract [of ageRegistry "''age''" 7 0 countMax5]
  note c3 = Validate_contract [of ageRegistry "''age''" 3 0 countMax5]
  have e: "entry ageRegistry ''age'' = ?l"
    by (simp add: ageRegistry_def entry_def)
  have a1: "Add (Some Map.empty) ''age'' countPass = Ok (Some [''age'' \<mapsto> [countPass]])"
    by (simp add: Add_def entry_def)
  have a2: "Add (Some [''age'' \<mapsto> [countPass]]) ''age'' countMax5 = Ok (Some [''age'' \<mapsto> [countPass, countMax5]])"
    by (simp add: Add_def entry_def)
  have a3: "Add (Some [''age'' \<mapsto> [countPass, countMax5]]) ''age'' countPass = Ok ageRegistry"
    by (simp add: Add_def entry_def ageRegistry_def)
  have f7: "entry ageRegistry ''age'' = ?l \<and> (1::nat) < length ?l
      \<and> (\<forall>i<1. fst ((?l ! i) 7 (stateAfter (take i ?l) 7 0)) = None)
      \<and> (?l ! 1) 7 (stateAfter (take 1 ?l) 7 0) = (Some ''too big'', 2)"
    using e by (simp add: stateAfter_def countPass_def countMax5_def)
  have r7: "Validate ageRegistry ''age'' 7 0 = (Some ''too big'', 2)"
    using c7 [THEN conjunct2, THEN conjunct1, rule_format, OF f7] .
  have "fst ((?l ! k) 3 (stateAfter (take k ?l) 3 0)) = None" if "k < length ?l" for k
  proof -
    from that have "k = 0 \<or> k = 1 \<or> k = 2" by auto
    then show ?thesis by (auto simp: stateAfter_def countPass_def countMax5_def)
  qed
  with e have f3: "entry ageRegistry ''age'' = ?l
      \<and> (\<forall>k<length ?l. fst ((?l ! k) 3 (stateAfter (take k ?l) 3 0)) = None)"
    by blast
  have "Validate ageRegistry ''age'' 3 0 = (None, stateAfter ?l 3 0)"
    using c3 [THEN conjunct1, rule_format, OF f3] .
  then have r3: "Validate ageRegistry ''age'' 3 0 = (None, 3)"
    by (simp add: stateAfter_def countPass_def countMax5_def)
  have r5: "Validate (Remove ageRegistry ''age'') ''age'' 7 0 = (None, 0)"
    using c7 [THEN conjunct2, THEN conjunct2, THEN conjunct2, THEN conjunct2, THEN conjunct2,
        THEN conjunct1] .
  have r6: "Validate ageRegistry ''name'' 7 0 = (None, 0)"
    by (simp add: Validate_def entry_def ageRegistry_def)
  have r8: "Set ageRegistry ''age'' countMax5 = Ok (Some [''age'' \<mapsto> [countMax5]])"
    by (simp add: Set_def ageRegistry_def)
  show ?thesis
    by (intro conjI) (rule a1, rule a2, rule a3, rule r7, rule r3, rule r5, rule r6, rule r8)
qed

text \<open>
  The claim as it was stated is about every registry. The zero value of the registry's
  type is the nil map, and on it \<^verbatim>\<open>Add\<close> and \<^verbatim>\<open>Set\<close> panic in the assignment to the entry
  and append or store nothing.
\<close>

theorem Add_nil_counterexample:
  "Add None ''age'' countPass = Panic ''assignment to entry in nil map''
   \<and> Set None ''age'' countPass = Panic ''assignment to entry in nil map''"
  by (simp add: Add_def Set_def nilMap_def)

section \<open>Built structs\<close>

text \<open>
  A built struct: the flag is set, the type is the one synthesised from the pending
  descriptors, and the instance is an addressable value of that type whose heap cell
  holds a struct with one value for each field. \<^verbatim>\<open>Make\<close> establishes this, and the setters
  keep it.
\<close>

definition built :: "Struct \<Rightarrow> heap \<Rightarrow> bool" where
  "built s h =
     (made s \<and>
      (case StructOf (fieldsByName s) of
         Panic m \<Rightarrow> False
       | Ok t \<Rightarrow>
           sstruct s = Some t \<and>
           (case structValue s of
              Ref t' a p ro \<Rightarrow>
                t' = t \<and> p = [] \<and> \<not> ro \<and>
                (case cell h a of
                   Some (VStruct vs) \<Rightarrow> length vs = length (fieldsByName s)
                 | _ \<Rightarrow> False)
            | _ \<Rightarrow> False)))"

text \<open>The declared type of the field of that name, if the struct has one.\<close>

definition fieldType :: "Struct \<Rightarrow> string \<Rightarrow> gtype option" where
  "fieldType s name =
     (case sstruct s of
        None \<Rightarrow> None
      | Some t \<Rightarrow>
          (case fields_t t of
             None \<Rightarrow> None
           | Some fs \<Rightarrow>
               (case field_index fs name of
                  None \<Rightarrow> None
                | Some i \<Rightarrow> Some (fst (snd (snd (fs ! i)))))))"

lemma structOfFields_Ok:
  "structOfFields fl seen = Ok r \<Longrightarrow>
     map fst r = map Name fl \<and> map (\<lambda>f. fst (snd f)) r = map Tag fl
     \<and> map (\<lambda>f. Some (fst (snd (snd f)))) r = map Type fl
     \<and> list_all isExported (map Name fl) \<and> distinct (map Name fl)
     \<and> set (map Name fl) \<inter> set seen = {} \<and> \<not> list_ex embedded r"
proof (induction fl arbitrary: seen r)
  case Nil
  then show ?case by simp
next
  case (Cons f fl)
  from Cons.prems obtain t r' where t: "Type f = Some t" and ex: "isExported (Name f)"
    and ns: "Name f \<notin> set seen" and r': "structOfFields fl (Name f # seen) = Ok r'"
    and r: "r = (Name f, Tag f, t, False) # r'"
    by (auto split: if_splits option.splits result.splits)
  from Cons.IH[OF r'] show ?case using t ex ns r by (auto simp: embedded_def)
qed

lemma field_index_Some:
  "field_index fs name = Some i \<Longrightarrow> i < length fs \<and> fst (fs ! i) = name"
  by (induction fs arbitrary: i) (auto split: if_splits option.splits)

lemma field_index_None: "field_index fs name = None \<longleftrightarrow> name \<notin> fst ` set fs"
  by (induction fs) (auto split: option.splits)

lemma builtD:
  assumes "built s h"
  obtains fs a vs where "made s" "StructOf (fieldsByName s) = Ok (TStruct fs)"
    "sstruct s = Some (TStruct fs)" "structValue s = Ref (TStruct fs) a [] False"
    "cell h a = Some (VStruct vs)" "length vs = length fs"
    "map fst fs = map Name (fieldsByName s)" "list_all isExported (map fst fs)"
    "distinct (map fst fs)" "\<not> list_ex embedded fs"
proof -
  from assms obtain t where t: "StructOf (fieldsByName s) = Ok t" and m: "made s"
    and st: "sstruct s = Some t"
    by (auto simp: built_def split: result.splits)
  from t obtain fs where fs: "structOfFields (fieldsByName s) [] = Ok fs" and tt: "t = TStruct fs"
    by (auto simp: StructOf_def split: result.splits)
  from assms t obtain a vs where sv: "structValue s = Ref t a [] False"
    and c: "cell h a = Some (VStruct vs)" and l: "length vs = length (fieldsByName s)"
    by (auto simp: built_def split: rvalue.splits option.splits gval.splits)
  note p = structOfFields_Ok[OF fs]
  from p have len: "length fs = length (fieldsByName s)"
    by (metis length_map)
  show thesis
    using that[of fs a vs] m t st sv c l p len tt by simp
qed

lemma underlying_not_named: "underlying t \<noteq> TNamed n u"
  by (induction t) auto

lemma Kind_underlying: "Kind_t (underlying t) = Kind_t t"
  by (induction t) auto

lemma Kind_struct_fields: "(Kind_t t = KStruct) = (\<exists>fs. fields_t t = Some fs)"
proof -
  have "(Kind_t (underlying t) = KStruct) = (\<exists>fs. underlying t = TStruct fs)"
    using underlying_not_named[of t] by (cases "underlying t") auto
  then show ?thesis
    by (auto simp: fields_t_def Kind_underlying split: gtype.splits)
qed

lemma Kind_ptr_elem: "(Kind_t t = KPtr) = (\<exists>e. underlying t = TPtr e)"
proof -
  have "(Kind_t (underlying t) = KPtr) = (\<exists>e. underlying t = TPtr e)"
    using underlying_not_named[of t] by (cases "underlying t") auto
  then show ?thesis by (simp add: Kind_underlying)
qed

lemma FieldByName_t_plain:
  "fields_t t = Some fs \<Longrightarrow> \<not> list_ex embedded fs \<Longrightarrow>
   FieldByName_t t name =
     (if name = [] then None else map_option (\<lambda>i. [int i]) (field_index fs name))"
  by (simp add: FieldByName_t_def split: option.splits)

lemma FieldByName_v_Ref_fields:
  assumes "fields_t t = Some fs" "\<not> list_ex embedded fs"
  shows "FieldByName_v h (Ref t a p ro) name =
     (if name = [] then Ok ZeroValue
      else (case field_index fs name of
              None \<Rightarrow> Ok ZeroValue
            | Some i \<Rightarrow> Ok (Ref (fst (snd (snd (fs ! i)))) a (p @ [i]) (ro \<or> \<not> isExported name))))"
  using Kind_struct_fields[of t] assms
  by (auto simp: FieldByName_v_def FieldByName_t_plain[OF assms] FieldByIndex_v_def Field_v_def
      split: option.splits prod.splits dest: field_index_Some)

lemma FieldByName_v_Ref:
  assumes "\<not> list_ex embedded fs" "list_all isExported (map fst fs)"
  shows "FieldByName_v h (Ref (TStruct fs) a p ro) name =
     (case field_index fs name of
        None \<Rightarrow> Ok ZeroValue
      | Some i \<Rightarrow> Ok (Ref (fst (snd (snd (fs ! i)))) a (p @ [i]) (ro \<or> \<not> isExported name)))"
proof (cases "name = []")
  case True
  from assms(2) have "[] \<notin> fst ` set fs"
    by (auto simp: list_all_iff isExported_def)
  then have "field_index fs [] = None" by (simp add: field_index_None)
  with True show ?thesis
    by (simp add: FieldByName_v_Ref_fields[OF _ assms(1)] fields_t_def)
next
  case False
  then show ?thesis
    by (simp add: FieldByName_v_Ref_fields[OF _ assms(1)] fields_t_def)
qed

lemma Kind_t_valid [simp]: "Kind_t t \<noteq> KInvalid"
  by (induction t) auto

lemma Kind_t_valid' [simp]: "KInvalid \<noteq> Kind_t t"
  using Kind_t_valid[of t] by metis

lemma cellD: "cell h a = Some c \<Longrightarrow> a < length h \<and> h ! a = Cell c"
  by (auto simp: cell_def split: if_splits hobj.splits)

lemma cell_update: "a < length h \<Longrightarrow> cell (h[a := Cell c]) b = (if b = a then Some c else cell h b)"
  by (auto simp: cell_def)

lemma store_field:
  assumes "cell h a = Some (VStruct vs)" "i < length vs"
  shows "store h a [i] w = Some (h[a := Cell (VStruct (vs[i := w]))])"
  using assms by (simp add: store_def)

lemma directlyAssignable_refl [simp]: "directlyAssignable t t"
  by (simp add: directlyAssignable_def)

text \<open>\<^verbatim>\<open>SetField\<close> and \<^verbatim>\<open>GetField\<close> on a built struct, step by step.\<close>

lemma SetField_built:
  assumes s: "sstruct s = Some (TStruct fs)" "structValue s = Ref (TStruct fs) a [] False" "made s"
    and ex: "list_all isExported (map fst fs)" and ne: "\<not> list_ex embedded fs"
  shows "SetField s h name value =
     (case field_index fs name of
        None \<Rightarrow> (Panic (''Field '' @ name @ '' does not exist''), h)
      | Some i \<Rightarrow>
          (case derefPtr h (valueOf value) of
             Panic m \<Rightarrow> (Panic m, h)
           | Ok v \<Rightarrow>
               if Kind_t (fst (snd (snd (fs ! i)))) \<noteq> Kind_v v
               then (Panic (''Cannot set field '' @ name @ '' with value of type '' @
                            kind_String (Kind_v v)), h)
               else (case Set_v h (Ref (fst (snd (snd (fs ! i)))) a [i] False) v of
                       Panic m \<Rightarrow> (Panic m, h)
                     | Ok h' \<Rightarrow> (Ok (), h'))))"
proof (cases "field_index fs name")
  case None
  then show ?thesis using s by (simp add: SetField_def checkMade_def FieldByName_v_Ref[OF ne ex])
next
  case (Some i)
  from field_index_Some[OF Some] have "i < length fs" "fst (fs ! i) = name" by auto
  with ex have "isExported name"
    by (metis list_all_length length_map nth_map)
  then show ?thesis using s Some
    by (simp add: SetField_def checkMade_def FieldByName_v_Ref[OF ne ex] split: result.splits)
qed

lemma GetField_built:
  assumes s: "sstruct s = Some (TStruct fs)" "structValue s = Ref (TStruct fs) a [] False" "made s"
    and ex: "list_all isExported (map fst fs)" and ne: "\<not> list_ex embedded fs"
  shows "GetField s h name =
     (case field_index fs name of
        None \<Rightarrow> Panic (''Field '' @ name @ '' does not exist'')
      | Some i \<Rightarrow> Interface_v h (Ref (fst (snd (snd (fs ! i)))) a [i] False))"
proof (cases "field_index fs name")
  case None
  then show ?thesis using s by (simp add: GetField_def checkMade_def FieldByName_v_Ref[OF ne ex])
next
  case (Some i)
  from field_index_Some[OF Some] have "i < length fs" "fst (fs ! i) = name" by auto
  with ex have "isExported name"
    by (metis list_all_length length_map nth_map)
  then show ?thesis using s Some
    by (simp add: GetField_def checkMade_def FieldByName_v_Ref[OF ne ex])
qed

lemma fieldType_built:
  "sstruct s = Some (TStruct fs) \<Longrightarrow>
   fieldType s name = (case field_index fs name of None \<Rightarrow> None | Some i \<Rightarrow> Some (fst (snd (snd (fs ! i)))))"
  by (simp add: fieldType_def fields_t_def)

lemma Set_v_Ok:
  assumes "Set_v h (Ref ft a [i] False) v = Ok h'" "cell h a = Some (VStruct vs)" "i < length vs"
  obtains w where "load h v = Some w" "h' = h[a := Cell (VStruct (vs[i := w]))]"
  using assms
  by (auto simp: Set_v_def store_def split: rvalue.splits if_splits result.splits option.splits)

lemma built_update:
  assumes "built s h" "structValue s = Ref t a [] False" "cell h a = Some (VStruct vs)"
  shows "built s (h[a := Cell (VStruct (vs[i := w]))])"
  using assms cellD[OF assms(3)]
  by (auto simp: built_def cell_update split: result.splits)


lemma SetField_Ok_built:
  assumes b: "built s h" and ok: "SetField s h name value = (Ok (), h')"
  shows "\<exists>ft v w. fieldType s name = Some ft \<and> derefPtr h (valueOf value) = Ok v
           \<and> Kind_v v = Kind_t ft \<and> load h v = Some w \<and> built s h'
           \<and> GetField s h' name = Ok (Some (ft, w))"
proof -
  from b obtain fs a vs where m: "made s" and st: "sstruct s = Some (TStruct fs)"
    and sv: "structValue s = Ref (TStruct fs) a [] False" and c: "cell h a = Some (VStruct vs)"
    and l: "length vs = length fs" and ex: "list_all isExported (map fst fs)" and ne: "\<not> list_ex embedded fs"
    by (rule builtD)
  note sf = SetField_built[OF st sv m ex ne, of h name "value"]
  from ok sf obtain i where i: "field_index fs name = Some i"
    by (cases "field_index fs name") auto
  let ?ft = "fst (snd (snd (fs ! i)))"
  from field_index_Some[OF i] l have il: "i < length vs" by simp
  from ok sf i obtain v where v: "derefPtr h (valueOf value) = Ok v"
    by (cases "derefPtr h (valueOf value)") auto
  from ok sf i v have k: "Kind_v v = Kind_t ?ft"
    by (auto split: if_splits)
  from ok sf i v k have sv': "Set_v h (Ref ?ft a [i] False) v = Ok h'"
    by (auto split: result.splits)
  from Set_v_Ok[OF sv' c il] obtain w where w: "load h v = Some w"
    and h': "h' = h[a := Cell (VStruct (vs[i := w]))]" by blast
  have b': "built s h'" unfolding h' by (rule built_update[OF b sv c])
  from cellD[OF c] have al: "a < length h" by simp
  have "GetField s h' name = Ok (Some (?ft, w))"
    using i il al by (simp add: GetField_built[OF st sv m ex ne] Interface_v_def h' cell_update)
  then show ?thesis
    using i v k w b' by (auto simp: fieldType_built[OF st])
qed

lemma Set_v_field:
  assumes "cell h a = Some (VStruct vs)" "i < length vs" "v \<noteq> ZeroValue" "\<not> flagRO v"
    "Type_v v = Ok t" "directlyAssignable ft t" "load h v = Some w"
  shows "Set_v h (Ref ft a [i] False) v = Ok (h[a := Cell (VStruct (vs[i := w]))])"
  using assms by (cases v) (auto simp: Set_v_def store_def)

lemma SetField_stores:
  assumes b: "built s h" and f: "fieldType s name = Some ft"
    and d: "derefPtr h (valueOf value) = Ok v" and nz: "v \<noteq> ZeroValue" and ro: "\<not> flagRO v"
    and t: "Type_v v = Ok t" and k: "Kind_t t = Kind_t ft" and da: "directlyAssignable ft t"
    and w: "load h v = Some w"
  shows "\<exists>h'. SetField s h name value = (Ok (), h') \<and> built s h'
           \<and> GetField s h' name = Ok (Some (ft, w))"
proof -
  from b obtain fs a vs where m: "made s" and st: "sstruct s = Some (TStruct fs)"
    and sv: "structValue s = Ref (TStruct fs) a [] False" and c: "cell h a = Some (VStruct vs)"
    and l: "length vs = length fs" and ex: "list_all isExported (map fst fs)" and ne: "\<not> list_ex embedded fs"
    by (rule builtD)
  from f obtain i where i: "field_index fs name = Some i" and fti: "fst (snd (snd (fs ! i))) = ft"
    by (auto simp: fieldType_built[OF st] split: option.splits)
  from field_index_Some[OF i] l have il: "i < length vs" by simp
  from t nz have kv: "Kind_v v = Kind_t t" by (cases v) auto
  have sf: "SetField s h name value = (Ok (), h[a := Cell (VStruct (vs[i := w]))])"
    using i fti d kv k Set_v_field[OF c il nz ro t da w]
    by (simp add: SetField_built[OF st sv m ex ne])
  from SetField_Ok_built[OF b sf] d w f have
    "built s (h[a := Cell (VStruct (vs[i := w]))])"
    "GetField s (h[a := Cell (VStruct (vs[i := w]))]) name = Ok (Some (ft, w))"
    by auto
  with sf show ?thesis by blast
qed

text \<open>
  Claim C7. On a built struct, \<^verbatim>\<open>SetField\<close> panics when no field has the name. A value
  that is not a pointer is compared by its own kind with the kind of the field, and
  stored as it is when its type can be assigned. A pointer is followed once: a nil
  pointer leaves nothing and fails the check of kinds; otherwise what it points to is
  compared by kind and, when its type can be assigned, what it points to is stored. So a
  pointer to a pointer given for a field that is not a pointer always fails the check of
  kinds. In every panic the heap is unchanged. When the call returns, the instance is
  still the same place, it is still a built struct, and the field holds the value that
  was left after the pointer was taken off.
\<close>

theorem SetField_contract:
  assumes "built s h"
  shows "(fieldType s name = None \<longrightarrow>
            SetField s h name value = (Panic (''Field '' @ name @ '' does not exist''), h))
     \<and> (\<forall>ft t x. fieldType s name = Some ft \<and> value = Plain (Some (t, x)) \<and> Kind_t t \<noteq> KPtr \<longrightarrow>
            (Kind_t t \<noteq> Kind_t ft \<longrightarrow>
               SetField s h name value =
                 (Panic (''Cannot set field '' @ name @ '' with value of type '' @ kind_String (Kind_t t)), h))
          \<and> (Kind_t t = Kind_t ft \<and> directlyAssignable ft t \<longrightarrow>
               (\<exists>h'. SetField s h name value = (Ok (), h') \<and> built s h'
                      \<and> GetField s h' name = Ok (Some (ft, x)))))
     \<and> (\<forall>ft pt t. fieldType s name = Some ft
            \<and> (value = Plain None \<or> (value = Plain (Some (pt, VPtr None)) \<and> underlying pt = TPtr t)) \<longrightarrow>
            SetField s h name value =
              (Panic (''Cannot set field '' @ name @ '' with value of type invalid''), h))
     \<and> (\<forall>ft pt t a p c w. fieldType s name = Some ft \<and> value = Plain (Some (pt, VPtr (Some (a, p))))
            \<and> underlying pt = TPtr t \<and> cell h a = Some c \<and> sub c p = Some w \<longrightarrow>
            (Kind_t t \<noteq> Kind_t ft \<longrightarrow>
               SetField s h name value =
                 (Panic (''Cannot set field '' @ name @ '' with value of type '' @ kind_String (Kind_t t)), h))
          \<and> (Kind_t t = Kind_t ft \<and> directlyAssignable ft t \<longrightarrow>
               (\<exists>h'. SetField s h name value = (Ok (), h') \<and> built s h'
                      \<and> GetField s h' name = Ok (Some (ft, w)))))
     \<and> (\<forall>ft t r. fieldType s name = Some ft \<and> Kind_t ft \<noteq> KPtr \<and> value = Plain (Some (TPtr (TPtr t), VPtr r)) \<longrightarrow>
            SetField s h name value =
              (Panic (''Cannot set field '' @ name @ '' with value of type '' @
                      (case r of None \<Rightarrow> ''invalid'' | Some x \<Rightarrow> ''ptr'')), h))
     \<and> (\<forall>h'. SetField s h name value = (Ok (), h') \<longrightarrow>
            (\<exists>ft v w. fieldType s name = Some ft
               \<and> (if Kind_v (valueOf value) = KPtr then Elem_v h (valueOf value) else Ok (valueOf value)) = Ok v
               \<and> Kind_v v = Kind_t ft \<and> load h v = Some w \<and> built s h'
               \<and> GetField s h' name = Ok (Some (ft, w))))"
proof -
  from assms obtain fs a vs where m: "made s" and st: "sstruct s = Some (TStruct fs)"
    and sv: "structValue s = Ref (TStruct fs) a [] False" and c: "cell h a = Some (VStruct vs)"
    and l: "length vs = length fs" and ex: "list_all isExported (map fst fs)" and ne: "\<not> list_ex embedded fs"
    by (rule builtD)
  note sf = SetField_built[OF st sv m ex ne, of h name "value"]
  note ft = fieldType_built[OF st, of name]
  have p1: "fieldType s name = None \<longrightarrow>
            SetField s h name value = (Panic (''Field '' @ name @ '' does not exist''), h)"
    using sf ft by (auto split: option.splits)
  have mismatch: "SetField s h name value =
              (Panic (''Cannot set field '' @ name @ '' with value of type '' @ kind_String (Kind_v v)), h)"
    if "fieldType s name = Some ft" "derefPtr h (valueOf value) = Ok v" "Kind_v v \<noteq> Kind_t ft" for ft v
    using that sf ft by (auto split: option.splits)
  have p2: "(Kind_t t \<noteq> Kind_t ft \<longrightarrow>
               SetField s h name value =
                 (Panic (''Cannot set field '' @ name @ '' with value of type '' @ kind_String (Kind_t t)), h))
          \<and> (Kind_t t = Kind_t ft \<and> directlyAssignable ft t \<longrightarrow>
               (\<exists>h'. SetField s h name value = (Ok (), h') \<and> built s h'
                      \<and> GetField s h' name = Ok (Some (ft, x))))"
    if f: "fieldType s name = Some ft" and val: "value = Plain (Some (t, x))" and k: "Kind_t t \<noteq> KPtr"
    for ft t x
  proof -
    have d: "derefPtr h (valueOf value) = Ok (Imm t x False)"
      using val k by (simp add: derefPtr_def ValueOf_def)
    show ?thesis
      using mismatch[OF f d] SetField_stores[OF assms f d, of t x] by auto
  qed
  have p3: "SetField s h name value =
              (Panic (''Cannot set field '' @ name @ '' with value of type invalid''), h)"
    if f: "fieldType s name = Some ft"
      and val: "value = Plain None \<or> (value = Plain (Some (pt, VPtr None)) \<and> underlying pt = TPtr t)"
    for ft pt t
  proof -
    have d: "derefPtr h (valueOf value) = Ok ZeroValue"
      using val by (auto simp: derefPtr_def ValueOf_def Elem_v_def Kind_ptr_elem)
    show ?thesis using mismatch[OF f d] by simp
  qed
  have p4: "(Kind_t t \<noteq> Kind_t ft \<longrightarrow>
               SetField s h name value =
                 (Panic (''Cannot set field '' @ name @ '' with value of type '' @ kind_String (Kind_t t)), h))
          \<and> (Kind_t t = Kind_t ft \<and> directlyAssignable ft t \<longrightarrow>
               (\<exists>h'. SetField s h name value = (Ok (), h') \<and> built s h'
                      \<and> GetField s h' name = Ok (Some (ft, w))))"
    if f: "fieldType s name = Some ft" and val: "value = Plain (Some (pt, VPtr (Some (a', p))))"
      and u: "underlying pt = TPtr t" and ca: "cell h a' = Some c'" and su: "sub c' p = Some w"
    for ft pt t a' p c' w
  proof -
    have d: "derefPtr h (valueOf value) = Ok (Ref t a' p False)"
      using val u by (auto simp: derefPtr_def ValueOf_def Elem_v_def Kind_ptr_elem)
    have ld: "load h (Ref t a' p False) = Some w" using ca su by simp
    show ?thesis
      using mismatch[OF f d] SetField_stores[OF assms f d _ _ _ _ _ ld, of t] by auto
  qed
  have p5: "SetField s h name value =
              (Panic (''Cannot set field '' @ name @ '' with value of type '' @
                      (case r of None \<Rightarrow> ''invalid'' | Some x \<Rightarrow> ''ptr'')), h)"
    if f: "fieldType s name = Some ft" and k: "Kind_t ft \<noteq> KPtr"
      and val: "value = Plain (Some (TPtr (TPtr t), VPtr r))" for ft t r
  proof -
    obtain v where v: "derefPtr h (valueOf value) = Ok v"
      and kv: "kind_String (Kind_v v) = (case r of None \<Rightarrow> ''invalid'' | Some x \<Rightarrow> ''ptr'')"
      and nk: "Kind_v v \<noteq> Kind_t ft"
      using val k Kind_t_valid[of ft]
      by (cases r) (auto simp: derefPtr_def ValueOf_def Elem_v_def)
    from mismatch[OF f v nk] kv show ?thesis by simp
  qed
  have p6: "\<forall>h'. SetField s h name value = (Ok (), h') \<longrightarrow>
            (\<exists>ft v w. fieldType s name = Some ft
               \<and> (if Kind_v (valueOf value) = KPtr then Elem_v h (valueOf value) else Ok (valueOf value)) = Ok v
               \<and> Kind_v v = Kind_t ft \<and> load h v = Some w \<and> built s h'
               \<and> GetField s h' name = Ok (Some (ft, w)))"
    using SetField_Ok_built[OF assms] unfolding derefPtr_def by blast
  show ?thesis using p1 p2 p3 p4 p5 p6 by blast
qed

text \<open>
  Claim C5, amended. On a built struct with a field \<open>f\<close> whose declared type \<open>T\<close> is of
  kind string, int, float or bool, \<^verbatim>\<open>SetField\<close> with a value of type \<open>T\<close> returns, and
  \<^verbatim>\<open>GetField\<close> then gives that value back. Values are compared by their representation.
\<close>

theorem SetField_GetField:
  assumes "built s h" and "fieldType s f = Some T"
    and "Kind_t T \<in> {KString, KInt, KFloat64, KBool}"
  shows "\<exists>h'. SetField s h f (Plain (Some (T, x))) = (Ok (), h')
            \<and> GetField s h' f = Ok (Some (T, x))"
proof -
  from assms(1) obtain fs a vs where m: "made s" and st: "sstruct s = Some (TStruct fs)"
    and sv: "structValue s = Ref (TStruct fs) a [] False" and c: "cell h a = Some (VStruct vs)"
    and l: "length vs = length fs" and ex: "list_all isExported (map fst fs)" and ne: "\<not> list_ex embedded fs"
    by (rule builtD)
  from assms(2) obtain i where i: "field_index fs f = Some i" and T: "fst (snd (snd (fs ! i))) = T"
    by (auto simp: fieldType_built[OF st] split: option.splits)
  from field_index_Some[OF i] l have il: "i < length vs" by simp
  from assms(3) have np: "Kind_t T \<noteq> KPtr" by auto
  have set: "Set_v h (Ref T a [i] False) (Imm T x False) = Ok (h[a := Cell (VStruct (vs[i := x]))])"
    using c il by (simp add: Set_v_def store_def)
  have sf: "SetField s h f (Plain (Some (T, x))) = (Ok (), h[a := Cell (VStruct (vs[i := x]))])"
    using i T np set
    by (simp add: SetField_built[OF st sv m ex ne] derefPtr_def ValueOf_def)
  from SetField_Ok_built[OF assms(1) sf] obtain ft v w where
    "fieldType s f = Some ft" "derefPtr h (valueOf (Plain (Some (T, x)))) = Ok v" "load h v = Some w"
    "GetField s (h[a := Cell (VStruct (vs[i := x]))]) f = Ok (Some (ft, w))"
    by blast
  with assms(2) np have "GetField s (h[a := Cell (VStruct (vs[i := x]))]) f = Ok (Some (T, x))"
    by (auto simp: derefPtr_def ValueOf_def)
  with sf show ?thesis by blast
qed


section \<open>The struct of the package's test\<close>

text \<open>The builder of \<^verbatim>\<open>TestMakeStruct\<close>: \<^verbatim>\<open>Name\<close>, \<^verbatim>\<open>Age\<close> and \<^verbatim>\<open>Is_cool\<close> under the key
  \<^verbatim>\<open>json\<close>, all required, made on the empty heap.\<close>

definition personBuilder :: Struct where
  "personBuilder =
     snd (BoolField (snd (IntField (snd (StringField (New ''json'') ''Name'' ''name'' [True]))
                            ''Age'' ''age'' [True]))
            ''Is_cool'' ''is_cool'' [True])"

definition personType :: gtype where
  "personType = TStruct [(''Name'', encTag ''json'' ''name'' True, TString, False),
                         (''Age'', encTag ''json'' ''age'' True, TInt, False),
                         (''Is_cool'', encTag ''json'' ''is_cool'' True, TBool, False)]"

definition person :: Struct where
  "person = fst (snd (Make personBuilder []))"

definition personHeap :: heap where
  "personHeap = snd (snd (Make personBuilder []))"

lemma personBuilder_eq:
  "personBuilder = \<lparr>tag = ''json'',
      fieldsByName = [\<lparr>Name = ''Name'', Tag = encTag ''json'' ''name'' True, Type = Some TString, Index = []\<rparr>,
                      \<lparr>Name = ''Age'', Tag = encTag ''json'' ''age'' True, Type = Some TInt, Index = []\<rparr>,
                      \<lparr>Name = ''Is_cool'', Tag = encTag ''json'' ''is_cool'' True, Type = Some TBool, Index = []\<rparr>],
      sstruct = None, structValue = ZeroValue, made = False\<rparr>"
  by (simp add: personBuilder_def StringField_def IntField_def BoolField_def AddField_def New_def
      encTag_def Let_def)

lemma personStructOf: "StructOf (fieldsByName personBuilder) = Ok personType"
  by (simp add: personBuilder_eq StructOf_def personType_def isValidFieldName_def isLetter_def
      isDigit_def isExported_def)

lemma person_eq:
  "person = personBuilder\<lparr>sstruct := Some personType, made := True,
                           structValue := Ref personType 0 [] False\<rparr>"
  "personHeap = [Cell (VStruct [VString [], VInt 0, VBool False])]"
  by (simp_all add: person_def personHeap_def Make_def personStructOf alloc_def)
     (simp_all add: personBuilder_eq personType_def)

lemma person_built: "built person personHeap"
  using personStructOf by (simp add: built_def person_eq cell_def) (simp add: personBuilder_eq)

lemma person_fieldType:
  "fieldType person ''Name'' = Some TString" "fieldType person ''Age'' = Some TInt"
  "fieldType person ''Is_cool'' = Some TBool" "fieldType person ''Nope'' = None"
  by (simp_all add: fieldType_def person_eq fields_t_def personType_def)

theorem SetField_GetField_witness:
  "built person personHeap \<and> fieldType person ''Name'' = Some TString
   \<and> Kind_t TString \<in> {KString, KInt, KFloat64, KBool}
   \<and> (\<exists>h'. SetField person personHeap ''Name'' (Plain (Some (TString, VString ''Nigel''))) = (Ok (), h')
            \<and> GetField person h' ''Name'' = Ok (Some (TString, VString ''Nigel'')))"
proof -
  have k: "Kind_t TString \<in> {KString, KInt, KFloat64, KBool}" by simp
  show ?thesis
    using person_built person_fieldType(1) k
      SetField_GetField [OF person_built person_fieldType(1) k, of "VString ''Nigel''"]
    by blast
qed

text \<open>
  The claim as it was stated asks only for a value of the field's kind. A value of a
  defined type over \<^verbatim>\<open>int\<close> has the kind of an \<^verbatim>\<open>int\<close> field and passes the kind check, and
  \<^verbatim>\<open>reflect.Value.Set\<close> then panics, because the type is not assignable.
\<close>

theorem SetField_same_kind_counterexample:
  "built person personHeap \<and> fieldType person ''Age'' = Some TInt
   \<and> Kind_t TInt \<in> {KString, KInt, KFloat64, KBool}
   \<and> Kind_t (TNamed ''Celsius'' TInt) = Kind_t TInt
   \<and> SetField person personHeap ''Age'' (Plain (Some (TNamed ''Celsius'' TInt, VInt 23)))
       = (Panic ''reflect.Set: value is not assignable to type'', personHeap)"
proof -
  have "SetField person personHeap ''Age'' (Plain (Some (TNamed ''Celsius'' TInt, VInt 23)))
       = (Panic ''reflect.Set: value is not assignable to type'', personHeap)"
    by code_simp
  then show ?thesis using person_built person_fieldType(2) by simp
qed

lemma person_built_more: "built person (personHeap @ [Cell (VInt 23)])"
  using personStructOf by (simp add: built_def person_eq cell_def) (simp add: personBuilder_eq)

theorem SetField_contract_witness:
  "built person personHeap
   \<and> SetField person personHeap ''Nope'' (Plain (Some (TString, VString ''x'')))
       = (Panic ''Field Nope does not exist'', personHeap)
   \<and> SetField person personHeap ''Age'' (Plain (Some (TString, VString ''x'')))
       = (Panic ''Cannot set field Age with value of type string'', personHeap)
   \<and> SetField person personHeap ''Age'' (Plain (Some (TPtr (TPtr TInt), VPtr None)))
       = (Panic ''Cannot set field Age with value of type invalid'', personHeap)
   \<and> (\<exists>h'. SetField person personHeap ''Age'' (Plain (Some (TInt, VInt 23))) = (Ok (), h')
          \<and> GetField person h' ''Age'' = Ok (Some (TInt, VInt 23)))
   \<and> built person (personHeap @ [Cell (VInt 23)])
   \<and> (\<exists>h'. SetField person (personHeap @ [Cell (VInt 23)]) ''Age''
              (Plain (Some (TPtr TInt, VPtr (Some (1, []))))) = (Ok (), h')
          \<and> GetField person h' ''Age'' = Ok (Some (TInt, VInt 23)))
   \<and> SetField person (personHeap @ [Cell (VInt 23)]) ''Age''
        (Plain (Some (TPtr TInt, VPtr (Some (1, [])))))
       = (Ok (), [Cell (VStruct [VString [], VInt 23, VBool False]), Cell (VInt 23)])
   \<and> SetField person (personHeap @ [Cell (VInt 23)]) ''Name''
        (Plain (Some (TPtr TInt, VPtr (Some (1, [])))))
       = (Panic ''Cannot set field Name with value of type int'', personHeap @ [Cell (VInt 23)])"
proof -
  let ?x = "Plain (Some (TString, VString ''x''))"
  let ?hp = "personHeap @ [Cell (VInt 23)]"
  let ?ptr = "Plain (Some (TPtr TInt, VPtr (Some (1, []))))"
  note c1 = SetField_contract [OF person_built, of "''Nope''" ?x]
  note c2 = SetField_contract [OF person_built, of "''Age''" ?x]
  note c3 = SetField_contract [OF person_built, of "''Age''" "Plain (Some (TPtr (TPtr TInt), VPtr None))"]
  note c4 = SetField_contract [OF person_built, of "''Age''" "Plain (Some (TInt, VInt 23))"]
  note c5 = SetField_contract [OF person_built_more, of "''Age''" ?ptr]
  note c6 = SetField_contract [OF person_built_more, of "''Name''" ?ptr]
  have r1: "SetField person personHeap ''Nope'' ?x = (Panic ''Field Nope does not exist'', personHeap)"
    using c1 [THEN conjunct1] person_fieldType(4) by simp
  have r2: "SetField person personHeap ''Age'' ?x
       = (Panic ''Cannot set field Age with value of type string'', personHeap)"
    using c2 [THEN conjunct2, THEN conjunct1, rule_format, of TInt TString "VString ''x''", THEN conjunct1]
      person_fieldType(2) by simp
  have r3: "SetField person personHeap ''Age'' (Plain (Some (TPtr (TPtr TInt), VPtr None)))
       = (Panic ''Cannot set field Age with value of type invalid'', personHeap)"
    using c3 [THEN conjunct2, THEN conjunct2, THEN conjunct2, THEN conjunct2, THEN conjunct1,
        rule_format, of TInt TInt None]
      person_fieldType(2) by simp
  have r4: "\<exists>h'. SetField person personHeap ''Age'' (Plain (Some (TInt, VInt 23))) = (Ok (), h')
          \<and> GetField person h' ''Age'' = Ok (Some (TInt, VInt 23))"
    using c4 [THEN conjunct2, THEN conjunct1, rule_format, of TInt TInt "VInt 23", THEN conjunct2]
      person_fieldType(2) by auto
  have ft: "fieldType person ''Age'' = Some TInt \<and> ?ptr = Plain (Some (TPtr TInt, VPtr (Some (1, []))))
      \<and> underlying (TPtr TInt) = TPtr TInt \<and> cell ?hp 1 = Some (VInt 23) \<and> sub (VInt 23) [] = Some (VInt 23)"
    using person_fieldType(2) by (simp add: cell_def person_eq)
  have r5: "\<exists>h'. SetField person ?hp ''Age'' ?ptr = (Ok (), h')
          \<and> GetField person h' ''Age'' = Ok (Some (TInt, VInt 23))"
    using c5 [THEN conjunct2, THEN conjunct2, THEN conjunct2, THEN conjunct1, rule_format, OF ft,
        THEN conjunct2]
    by auto
  have r6: "SetField person ?hp ''Age'' ?ptr
       = (Ok (), [Cell (VStruct [VString [], VInt 23, VBool False]), Cell (VInt 23)])"
    by code_simp
  have ft': "fieldType person ''Name'' = Some TString \<and> ?ptr = Plain (Some (TPtr TInt, VPtr (Some (1, []))))
      \<and> underlying (TPtr TInt) = TPtr TInt \<and> cell ?hp 1 = Some (VInt 23) \<and> sub (VInt 23) [] = Some (VInt 23)"
    using person_fieldType(1) by (simp add: cell_def person_eq)
  have r7: "SetField person ?hp ''Name'' ?ptr
       = (Panic ''Cannot set field Name with value of type int'', ?hp)"
    using c6 [THEN conjunct2, THEN conjunct2, THEN conjunct2, THEN conjunct1, rule_format, OF ft',
        THEN conjunct1]
    by simp
  show ?thesis using person_built person_built_more r1 r2 r3 r4 r5 r6 r7 by blast
qed

section \<open>Make\<close>

lemma Make_cases:
  "Make s h =
     (if made s
      then (case sstruct s of
              None \<Rightarrow> (Panic ''reflect: New(nil)'', s, h)
            | Some t \<Rightarrow> (Ok (), s\<lparr>structValue := Ref t (length h) [] False\<rparr>, h @ [Cell (zero t)]))
      else (case StructOf (fieldsByName s) of
              Panic m \<Rightarrow> (Panic m, s, h)
            | Ok t \<Rightarrow> (Ok (), s\<lparr>sstruct := Some t, made := True,
                               structValue := Ref t (length h) [] False\<rparr>, h @ [Cell (zero t)])))"
  by (simp add: Make_def alloc_def split: result.splits option.splits)

lemma cell_fresh: "cell (h @ [Cell c]) (length h) = Some c"
  by (simp add: cell_def)

lemma Make_built:
  assumes "Make s h = (Ok (), s', h')" and "made s \<longrightarrow> built s h0"
  shows "built s' h'"
proof (cases "made s")
  case True
  with assms(2) have b: "built s h0" by simp
  then obtain fs a vs where st: "sstruct s = Some (TStruct fs)"
    and so: "StructOf (fieldsByName s) = Ok (TStruct fs)"
    and len: "map fst fs = map Name (fieldsByName s)"
    by (rule builtD)
  from len have "length fs = length (fieldsByName s)" by (metis length_map)
  with assms(1) True st so show ?thesis
    by (auto simp: Make_cases built_def cell_fresh)
next
  case False
  with assms(1) obtain t where so: "StructOf (fieldsByName s) = Ok t"
    and s': "s' = s\<lparr>sstruct := Some t, made := True, structValue := Ref t (length h) [] False\<rparr>"
    and h': "h' = h @ [Cell (zero t)]"
    by (auto simp: Make_cases split: result.splits)
  from so obtain fs where fs: "structOfFields (fieldsByName s) [] = Ok fs" and t: "t = TStruct fs"
    by (auto simp: StructOf_def split: result.splits)
  from structOfFields_Ok[OF fs] have "length fs = length (fieldsByName s)" by (metis length_map)
  then show ?thesis using so s' h' t by (simp add: built_def cell_fresh)
qed

lemma GetField_zero:
  assumes b: "built s h" and c: "load h (structValue s) = Some (zero t)" and st: "sstruct s = Some t"
    and ft: "fieldType s name = Some ft"
  shows "GetField s h name = Ok (Some (ft, zero ft))"
proof -
  from b obtain fs a vs where m: "made s" and st': "sstruct s = Some (TStruct fs)"
    and sv: "structValue s = Ref (TStruct fs) a [] False" and ce: "cell h a = Some (VStruct vs)"
    and l: "length vs = length fs" and ex: "list_all isExported (map fst fs)" and ne: "\<not> list_ex embedded fs"
    by (rule builtD)
  from st st' have t: "t = TStruct fs" by simp
  from ft obtain i where i: "field_index fs name = Some i" and fti: "fst (snd (snd (fs ! i))) = ft"
    by (auto simp: fieldType_built[OF st'] split: option.splits)
  from field_index_Some[OF i] have il: "i < length fs" by simp
  from c sv ce t have vs: "vs = map (\<lambda>f. zero (fst (snd (snd f)))) fs" by simp
  show ?thesis
    using i il fti ce vs by (simp add: GetField_built[OF st' sv m ex ne] Interface_v_def)
qed

text \<open>
  Claim C8, amended. A call to \<^verbatim>\<open>Make\<close> that returns leaves the builder made, with its
  descriptors and key as they were, and with a new instance: a cell that the heap did not
  have, holding the zero value of the type. The call returns exactly when the builder is
  made already (and has its type), or \<^verbatim>\<open>reflect.StructOf\<close> accepts the pending descriptors;
  otherwise it panics and changes nothing. A second call on the built struct, whatever
  was set in between, returns with the same type, a new instance, and every field at the
  zero value of its type.
\<close>

theorem Make_contract:
  "(\<forall>s' h'. Make s h = (Ok (), s', h') \<longrightarrow>
       made s' \<and> fieldsByName s' = fieldsByName s \<and> tag s' = tag s
       \<and> (\<exists>t. sstruct s' = Some t \<and> structValue s' = Ref t (length h) [] False
              \<and> h' = h @ [Cell (zero t)] \<and> load h' (structValue s') = Some (zero t)))
   \<and> ((fst (Make s h) = Ok ()) =
        (if made s then sstruct s \<noteq> None else (\<exists>t. StructOf (fieldsByName s) = Ok t)))
   \<and> (fst (Make s h) \<noteq> Ok () \<longrightarrow> snd (Make s h) = (s, h))
   \<and> (\<forall>s1 h1 hx. Make s h = (Ok (), s1, h1) \<and> built s1 hx \<longrightarrow>
        (\<exists>s2 h2. Make s1 hx = (Ok (), s2, h2) \<and> built s2 h2 \<and> sstruct s2 = sstruct s1
           \<and> (\<exists>t. sstruct s1 = Some t \<and> structValue s2 = Ref t (length hx) [] False
                  \<and> h2 = hx @ [Cell (zero t)])
           \<and> (\<forall>name ft. fieldType s1 name = Some ft \<longrightarrow>
                 GetField s2 h2 name = Ok (Some (ft, zero ft)))))"
proof -
  have p1: "\<forall>s' h'. Make s h = (Ok (), s', h') \<longrightarrow>
       made s' \<and> fieldsByName s' = fieldsByName s \<and> tag s' = tag s
       \<and> (\<exists>t. sstruct s' = Some t \<and> structValue s' = Ref t (length h) [] False
              \<and> h' = h @ [Cell (zero t)] \<and> load h' (structValue s') = Some (zero t))"
    by (auto simp: Make_cases cell_fresh split: if_splits option.splits result.splits)
  have p2: "(fst (Make s h) = Ok ()) =
        (if made s then sstruct s \<noteq> None else (\<exists>t. StructOf (fieldsByName s) = Ok t))"
    by (auto simp: Make_cases split: if_splits option.splits result.splits)
  have p3: "fst (Make s h) \<noteq> Ok () \<longrightarrow> snd (Make s h) = (s, h)"
    by (auto simp: Make_cases split: if_splits option.splits result.splits)
  have p4: "\<exists>s2 h2. Make s1 hx = (Ok (), s2, h2) \<and> built s2 h2 \<and> sstruct s2 = sstruct s1
           \<and> (\<exists>t. sstruct s1 = Some t \<and> structValue s2 = Ref t (length hx) [] False
                  \<and> h2 = hx @ [Cell (zero t)])
           \<and> (\<forall>name ft. fieldType s1 name = Some ft \<longrightarrow>
                 GetField s2 h2 name = Ok (Some (ft, zero ft)))"
    if mk: "Make s h = (Ok (), s1, h1)" and b: "built s1 hx" for s1 h1 hx
  proof -
    from b obtain fs where m: "made s1" and st: "sstruct s1 = Some (TStruct fs)"
      by (rule builtD)
    let ?t = "TStruct fs"
    let ?s2 = "s1\<lparr>structValue := Ref ?t (length hx) [] False\<rparr>"
    let ?h2 = "hx @ [Cell (zero ?t)]"
    have mk2: "Make s1 hx = (Ok (), ?s2, ?h2)"
      using m st by (simp add: Make_cases)
    have b2: "built ?s2 ?h2"
      using Make_built[OF mk2, of hx] b by simp
    have ld: "load ?h2 (structValue ?s2) = Some (zero ?t)"
      by (simp add: cell_fresh)
    have "GetField ?s2 ?h2 name = Ok (Some (ft, zero ft))" if "fieldType s1 name = Some ft" for name ft
      using GetField_zero[OF b2 ld, of name ft] st that by (simp add: fieldType_def)
    then show ?thesis using mk2 b2 st by auto
  qed
  show ?thesis using p1 p2 p3 p4 by blast
qed


lemma person_Make: "Make personBuilder [] = (Ok (), person, personHeap)"
  by (simp add: Make_cases personStructOf person_eq) (simp add: personBuilder_eq personType_def)

theorem Make_contract_witness:
  "Make personBuilder [] = (Ok (), person, personHeap)
   \<and> made person
   \<and> structValue person = Ref personType 0 [] False
   \<and> personHeap = [Cell (zero personType)]
   \<and> built person [Cell (VStruct [VString ''Nigel'', VInt 23, VBool True])]
   \<and> (\<exists>s2 h2. Make person [Cell (VStruct [VString ''Nigel'', VInt 23, VBool True])] = (Ok (), s2, h2)
         \<and> sstruct s2 = sstruct person
         \<and> GetField s2 h2 ''Age'' = Ok (Some (TInt, zero TInt)))"
proof -
  let ?hx = "[Cell (VStruct [VString ''Nigel'', VInt 23, VBool True])]"
  note c = Make_contract [of personBuilder "[]"]
  have r1: "made person \<and> (\<exists>t. sstruct person = Some t \<and> structValue person = Ref t (length ([]::heap)) [] False
              \<and> personHeap = [] @ [Cell (zero t)])"
    using c [THEN conjunct1, rule_format, OF person_Make] by blast
  have st: "sstruct person = Some personType"
    by (simp add: person_eq)
  have b: "built person ?hx"
    using personStructOf by (simp add: built_def person_eq cell_def) (simp add: personBuilder_eq)
  have r2: "\<exists>s2 h2. Make person ?hx = (Ok (), s2, h2) \<and> sstruct s2 = sstruct person
         \<and> GetField s2 h2 ''Age'' = Ok (Some (TInt, zero TInt))"
    using c [THEN conjunct2, THEN conjunct2, THEN conjunct2, rule_format, of person personHeap ?hx]
      person_Make b person_fieldType(2) by blast
  show ?thesis using person_Make r1 r2 b st by auto
qed

text \<open>
  The claim as it was stated has every call leave the builder built. \<^verbatim>\<open>AddField\<close> takes
  the name \<^verbatim>\<open>name\<close>; \<^verbatim>\<open>reflect.StructOf\<close> refuses a field whose name starts with a lower-case
  letter, so \<^verbatim>\<open>Make\<close> panics and the builder stays not made.
\<close>

theorem Make_unexported_counterexample:
  "AddField (New ''json'') ''name'' ''name'' (Some TString) []
     = (Ok (), \<lparr>tag = ''json'',
                fieldsByName = [\<lparr>Name = ''name'', Tag = encTag ''json'' ''name'' False,
                                 Type = Some TString, Index = []\<rparr>],
                sstruct = None, structValue = ZeroValue, made = False\<rparr>)
   \<and> Make \<lparr>tag = ''json'',
            fieldsByName = [\<lparr>Name = ''name'', Tag = encTag ''json'' ''name'' False,
                             Type = Some TString, Index = []\<rparr>],
            sstruct = None, structValue = ZeroValue, made = False\<rparr> []
     = (Panic ''reflect.StructOf: field is unexported but missing PkgPath'',
        \<lparr>tag = ''json'',
            fieldsByName = [\<lparr>Name = ''name'', Tag = encTag ''json'' ''name'' False,
                             Type = Some TString, Index = []\<rparr>],
            sstruct = None, structValue = ZeroValue, made = False\<rparr>, [])"
  by (simp add: AddField_def New_def encTag_def Make_cases StructOf_def isValidFieldName_def
      isLetter_def isExported_def)

section \<open>Deep copy of a built struct\<close>

text \<open>The descriptor that \<^verbatim>\<open>AddField\<close> appends under the key \<open>k\<close> for the arguments
  (name, encoding name, type, required), and the condition that the encoding names of a
  list of such arguments need no escaping.\<close>

definition descriptor :: "string \<Rightarrow> string \<times> string \<times> gtype option \<times> bool \<Rightarrow> StructField" where
  "descriptor k a =
     (case a of (n, e, t, r) \<Rightarrow>
        \<lparr>Name = n, Tag = encTag k (if e = [] then n else e) r, Type = t, Index = []\<rparr>)"

definition plainNames :: "(string \<times> string \<times> gtype option \<times> bool) list \<Rightarrow> bool" where
  "plainNames specs = list_all (\<lambda>a. case a of (n, e, t, r) \<Rightarrow> list_all plainChar (if e = [] then n else e)) specs"

lemma AddField_descriptor:
  assumes "n \<noteq> []" "n \<notin> Name ` set (fieldsByName s)"
  shows "AddField s n e t req =
           (Ok (), s\<lparr>made := False,
                     fieldsByName := fieldsByName s @ [descriptor (tag s) (n, e, t, required0 req)]\<rparr>)"
  using assms by (simp add: AddField_def Let_def descriptor_def encTag_def required0_def)

lemma addFields_descriptors:
  assumes k: "keyOk k" "k \<noteq> ''structs''" and u: "unquotesPlain unq"
    and "plainNames specs" and "[] \<notin> set (map fst specs)" and "distinct (map fst specs)"
    and "set (map fst specs) \<inter> Name ` set (fieldsByName s0) = {}" and "tag s0 = k"
    and "\<not> made s0"
  shows "addFields unq k (map (descriptor k) specs) s0
         = (Ok (), s0\<lparr>fieldsByName := fieldsByName s0 @ map (descriptor k) specs\<rparr>)"
  using assms(4-)
proof (induction specs arbitrary: s0)
  case Nil
  then show ?case by simp
next
  case (Cons a specs)
  obtain n e t r where a: "a = (n, e, t, r)" by (cases a) auto
  let ?e = "if e = [] then n else e"
  from Cons.prems a have n: "n \<noteq> []" and pl: "list_all plainChar ?e"
    and nin: "n \<notin> Name ` set (fieldsByName s0)"
    by (auto simp: plainNames_def)
  from n have ene: "?e \<noteq> []" by simp
  have g1: "Get unq (Tag (descriptor k a)) k = ?e"
    using Get_encTag(1)[OF k(1) pl u k(2)] by (simp add: descriptor_def a)
  have g2: "(Get unq (Tag (descriptor k a)) ''structs'' = ''required'') = r"
    using Get_encTag(2)[OF k(1) pl u k(2)] by (simp add: descriptor_def a)
  have d: "descriptor (tag s0) (n, ?e, t, r) = descriptor k a"
    using Cons.prems by (simp add: descriptor_def a)
  let ?s1 = "s0\<lparr>made := False, fieldsByName := fieldsByName s0 @ [descriptor k a]\<rparr>"
  have step: "AddField s0 (Name (descriptor k a)) (Get unq (Tag (descriptor k a)) k)
                (Type (descriptor k a)) [Get unq (Tag (descriptor k a)) ''structs'' = ''required'']
              = (Ok (), ?s1)"
    using AddField_descriptor[OF n nin, of ?e t "[r]"] d g1 g2
    by (simp add: descriptor_def a required0_def)
  have nm: "Name (descriptor k a) = n" by (simp add: descriptor_def a)
  have ih: "addFields unq k (map (descriptor k) specs) ?s1
         = (Ok (), ?s1\<lparr>fieldsByName := fieldsByName ?s1 @ map (descriptor k) specs\<rparr>)"
  proof (rule Cons.IH)
    show "plainNames specs" using Cons.prems by (simp add: plainNames_def)
    show "[] \<notin> set (map fst specs)" using Cons.prems by simp
    show "distinct (map fst specs)" using Cons.prems by simp
    show "set (map fst specs) \<inter> Name ` set (fieldsByName ?s1) = {}"
      using Cons.prems a nm by auto
    show "tag ?s1 = k" using Cons.prems by simp
    show "\<not> made ?s1" by simp
  qed
  show ?case
    using step ih Cons.prems(6) by simp
qed

lemma FieldByIndex_whole:
  "FieldByIndex_v h (Ref (TStruct fs) a [] ro) [] = Ok (Ref (TStruct fs) a [] ro)"
  by (simp add: FieldByIndex_v_def)

lemma copyField_whole:
  assumes "Index f = []" "structValue s = Ref (TStruct fs) a [] False"
    "structValue n = Ref (TStruct fs) b [] False" "cell h a = Some v" "cell h b = Some v'"
  shows "copyField h s n f = Ok (h[b := Cell v])"
  using assms
  by (simp add: copyField_def FieldByIndex_whole derefPtr_def Set_v_def store_def)

lemma copyFields_whole:
  assumes "list_all (\<lambda>f. Index f = []) fl" "structValue s = Ref (TStruct fs) a [] False"
    "structValue n = Ref (TStruct fs) b [] False" "cell h a = Some v" "cell h b = Some v'" "a \<noteq> b"
  shows "copyFields h s n fl = (None, if fl = [] then h else h[b := Cell v])"
  using assms(1,4,5)
proof (induction fl arbitrary: h v')
  case Nil
  then show ?case by simp
next
  case (Cons f fl)
  from Cons.prems have i: "Index f = []" and r: "list_all (\<lambda>f. Index f = []) fl" by auto
  from cellD[OF Cons.prems(3)] have bl: "b < length h" by simp
  have c1: "cell (h[b := Cell v]) a = Some v"
    using bl assms(6) Cons.prems(2) by (simp add: cell_update)
  have c2: "cell (h[b := Cell v]) b = Some v"
    using bl by (simp add: cell_update)
  from Cons.IH[OF r c1 c2] copyField_whole[OF i assms(2,3) Cons.prems(2,3)]
  show ?case by simp
qed


lemma DeepCopy_result:
  assumes b: "built s h" and d: "fieldsByName s = map (descriptor (tag s)) specs"
    and k: "keyOk (tag s)" "tag s \<noteq> ''structs''" and pl: "plainNames specs"
    and u: "unquotesPlain unq"
  obtains t a v where "sstruct s = Some t" "structValue s = Ref t a [] False" "cell h a = Some v"
    "DeepCopy unq s h =
       (Ok (s\<lparr>structValue := Ref t (length h) [] False\<rparr>),
        h @ [Cell (if fieldsByName s = [] then zero t else v)])"
proof -
  from b obtain fs a vs where m: "made s" and so: "StructOf (fieldsByName s) = Ok (TStruct fs)"
    and st: "sstruct s = Some (TStruct fs)" and sv: "structValue s = Ref (TStruct fs) a [] False"
    and c: "cell h a = Some (VStruct vs)" and nm: "map fst fs = map Name (fieldsByName s)"
    and ex: "list_all isExported (map fst fs)" and di: "distinct (map fst fs)"
    by (rule builtD)
  let ?T = "TStruct fs"
  have names: "map Name (fieldsByName s) = map fst specs"
    unfolding d by (induction specs) (auto simp: descriptor_def)
  have ne: "[] \<notin> set (map fst specs)"
    using ex nm names by (auto simp: list_all_iff isExported_def)
  have di': "distinct (map fst specs)" using di nm names by simp
  have af: "addFields unq (tag s) (fieldsByName s) (New (tag s))
            = (Ok (), (New (tag s))\<lparr>fieldsByName := fieldsByName s\<rparr>)"
    unfolding d
    using addFields_descriptors[OF k u pl ne di', of "New (tag s)"]
    by (simp add: New_def)
  let ?n1 = "(New (tag s))\<lparr>fieldsByName := fieldsByName s\<rparr>"
  let ?n2 = "?n1\<lparr>sstruct := Some ?T, made := True, structValue := Ref ?T (length h) [] False\<rparr>"
  let ?h2 = "h @ [Cell (zero ?T)]"
  have mk: "Make ?n1 h = (Ok (), ?n2, ?h2)"
    using so by (simp add: Make_cases New_def)
  have n2: "?n2 = s\<lparr>structValue := Ref ?T (length h) [] False\<rparr>"
    using m st by (simp add: New_def)
  from cellD[OF c] have al: "a < length h" by simp
  have ix: "list_all (\<lambda>f. Index f = []) (fieldsByName s)"
    unfolding d by (simp add: list_all_iff descriptor_def split: prod.splits)
  have ca: "cell ?h2 a = Some (VStruct vs)"
    using c al by (simp add: cell_def nth_append)
  have cb: "cell ?h2 (length h) = Some (zero ?T)"
    by (rule cell_fresh)
  have cf: "copyFields ?h2 s ?n2 (fieldsByName s)
            = (None, if fieldsByName s = [] then ?h2 else ?h2[length h := Cell (VStruct vs)])"
    using copyFields_whole[OF ix sv _ ca cb, of ?n2] al by simp
  have "DeepCopy unq s h =
       (Ok (s\<lparr>structValue := Ref ?T (length h) [] False\<rparr>),
        h @ [Cell (if fieldsByName s = [] then zero ?T else VStruct vs)])"
    using m af mk cf n2 by (simp add: DeepCopy_def checkMade_def)
  with st sv c show thesis by (rule that)
qed

text \<open>
  Claim C2, amended. Take a built struct whose descriptors were added by \<^verbatim>\<open>AddField\<close>,
  whose key can be a tag key and is not \<^verbatim>\<open>structs\<close>, and whose encoding names need no
  escaping. Then \<^verbatim>\<open>DeepCopy\<close> returns a new built struct, on an instance of its own, whose
  descriptors have, in order, the same names, the same encoding names as \<^verbatim>\<open>Tag.Get\<close> reads
  them, and the same required markers as \<^verbatim>\<open>IsRequired\<close> reads them.
\<close>

theorem DeepCopy_descriptors:
  assumes "built s h" and "fieldsByName s = map (descriptor (tag s)) specs"
    and "keyOk (tag s)" and "tag s \<noteq> ''structs''" and "plainNames specs"
    and "unquotesPlain unq"
  shows "\<exists>c h'. DeepCopy unq s h = (Ok c, h') \<and> built c h' \<and> tag c = tag s
           \<and> map Name (fieldsByName c) = map Name (fieldsByName s)
           \<and> map (\<lambda>f. Get unq (Tag f) (tag c)) (fieldsByName c)
               = map (\<lambda>f. Get unq (Tag f) (tag s)) (fieldsByName s)
           \<and> map (IsRequired unq) (fieldsByName c) = map (IsRequired unq) (fieldsByName s)
           \<and> structValue c \<noteq> structValue s"
proof -
  from assms obtain t a v where st: "sstruct s = Some t" and sv: "structValue s = Ref t a [] False"
    and c: "cell h a = Some v"
    and dc: "DeepCopy unq s h =
       (Ok (s\<lparr>structValue := Ref t (length h) [] False\<rparr>),
        h @ [Cell (if fieldsByName s = [] then zero t else v)])"
    by (rule DeepCopy_result)
  let ?c = "s\<lparr>structValue := Ref t (length h) [] False\<rparr>"
  let ?h' = "h @ [Cell (if fieldsByName s = [] then zero t else v)]"
  from assms(1) obtain fs a' vs where m: "made s" and so: "StructOf (fieldsByName s) = Ok (TStruct fs)"
    and st': "sstruct s = Some (TStruct fs)" and sv': "structValue s = Ref (TStruct fs) a' [] False"
    and c': "cell h a' = Some (VStruct vs)" and l: "length vs = length fs"
    and nm: "map fst fs = map Name (fieldsByName s)"
    by (rule builtD)
  from nm have len: "length fs = length (fieldsByName s)" by (metis length_map)
  from sv sv' c c' have v: "v = VStruct vs" and t: "t = TStruct fs" by auto
  have b': "built ?c ?h'"
    using m so st' l len by (simp add: built_def cell_fresh v t)
  from cellD[OF c] sv have ne: "structValue ?c \<noteq> structValue s" by auto
  show ?thesis using dc b' ne by auto
qed


definition personSpecs :: "(string \<times> string \<times> gtype option \<times> bool) list" where
  "personSpecs = [(''Name'', ''name'', Some TString, True), (''Age'', ''age'', Some TInt, True),
                  (''Is_cool'', ''is_cool'', Some TBool, True)]"

theorem DeepCopy_descriptors_witness:
  "built person personHeap \<and> fieldsByName person = map (descriptor (tag person)) personSpecs
   \<and> keyOk (tag person) \<and> tag person \<noteq> ''structs'' \<and> plainNames personSpecs
   \<and> unquotesPlain unquotePlain
   \<and> (\<exists>c h'. DeepCopy unquotePlain person personHeap = (Ok c, h') \<and> built c h'
         \<and> map Name (fieldsByName c) = [''Name'', ''Age'', ''Is_cool'']
         \<and> map (\<lambda>f. Get unquotePlain (Tag f) (tag c)) (fieldsByName c)
             = map (\<lambda>f. Get unquotePlain (Tag f) (tag person)) (fieldsByName person)
         \<and> map (IsRequired unquotePlain) (fieldsByName c)
             = map (IsRequired unquotePlain) (fieldsByName person))"
proof -
  have d: "fieldsByName person = map (descriptor (tag person)) personSpecs"
    by (simp add: person_eq personBuilder_eq personSpecs_def descriptor_def)
  have k: "keyOk (tag person)" "tag person \<noteq> ''structs''"
    by (simp_all add: person_eq personBuilder_eq keyOk_def keyChar_def dq_def)
  have pl: "plainNames personSpecs"
    by (simp add: plainNames_def personSpecs_def plainChar_def dq_def backslash_def)
  have nm: "map Name (fieldsByName person) = [''Name'', ''Age'', ''Is_cool'']"
    by (simp add: person_eq personBuilder_eq)
  show ?thesis
    using DeepCopy_descriptors [OF person_built d k pl unquotesPlain_unquotePlain]
      person_built d k pl unquotesPlain_unquotePlain nm
    by auto
qed

text \<open>The struct that \<^verbatim>\<open>New("")\<close>, \<^verbatim>\<open>AddField("Name", "name", string, true)\<close> and \<^verbatim>\<open>Make\<close>
  build on the empty heap.\<close>

definition keyless :: Struct where
  "keyless = \<lparr>tag = [],
      fieldsByName = [\<lparr>Name = ''Name'', Tag = encTag [] ''name'' True, Type = Some TString, Index = []\<rparr>],
      sstruct = Some (TStruct [(''Name'', encTag [] ''name'' True, TString, False)]),
      structValue = Ref (TStruct [(''Name'', encTag [] ''name'' True, TString, False)]) 0 [] False,
      made = True\<rparr>"


text \<open>
  The claim as it was stated is about every built struct. Under the empty key the tag of
  the field is \<^verbatim>\<open>:"name" structs:"required"\<close>, from which \<^verbatim>\<open>Tag.Get\<close> reads nothing: the
  copy's descriptor gets the encoding name \<^verbatim>\<open>Name\<close> and no required marker, the two struct
  types differ in their tags, and \<^verbatim>\<open>DeepCopy\<close> panics in \<^verbatim>\<open>reflect.Value.Set\<close> instead of
  returning a struct.
\<close>

theorem DeepCopy_keyless_counterexample:
  "Make (snd (AddField (New []) ''Name'' ''name'' (Some TString) [True])) []
     = (Ok (), keyless, [Cell (VStruct [VString []])])
   \<and> built keyless [Cell (VStruct [VString []])]
   \<and> DeepCopy unquotePlain keyless [Cell (VStruct [VString []])]
       = (Panic ''reflect.Set: value is not assignable to type'',
          [Cell (VStruct [VString []]), Cell (VStruct [VString []])])"
  by code_simp


text \<open>The Go statement \<^verbatim>\<open>x[i] = v\<close> on the slice that \<^verbatim>\<open>GetField\<close> returned, and the
  elements such a slice shows.\<close>

definition SliceAssign :: "heap \<Rightarrow> iface result \<Rightarrow> nat \<Rightarrow> gval \<Rightarrow> heap result" where
  "SliceAssign h x i v =
     (case x of
        Ok (Some (t, VSlice (Some a))) \<Rightarrow>
          (if a < length h
           then (case h ! a of
                   Array xs \<Rightarrow> if i < length xs then Ok (h[a := Array (xs[i := v])])
                               else Panic ''runtime error: index out of range''
                 | _ \<Rightarrow> Panic illTyped)
           else Panic illTyped)
      | Ok (Some (t, VSlice None)) \<Rightarrow> Panic ''runtime error: index out of range''
      | _ \<Rightarrow> Panic illTyped)"

definition SliceElems :: "heap \<Rightarrow> iface result \<Rightarrow> gval list option" where
  "SliceElems h x =
     (case x of
        Ok (Some (t, VSlice (Some a))) \<Rightarrow>
          (if a < length h then (case h ! a of Array xs \<Rightarrow> Some xs | _ \<Rightarrow> None) else None)
      | Ok (Some (t, VSlice None)) \<Rightarrow> Some []
      | _ \<Rightarrow> None)"

text \<open>A struct with one field \<^verbatim>\<open>Tags []int\<close>, made on a heap that holds the array of the
  caller's slice \<^verbatim>\<open>[]int{1, 2}\<close>, and set to that slice.\<close>

definition tagged :: Struct where
  "tagged = fst (snd (Make (snd (SliceField (New ''json'') ''Tags'' ''tags'' (Some TInt) []))
                        [Array [VInt 1, VInt 2]]))"

definition taggedHeap :: heap where
  "taggedHeap =
     snd (SetField tagged
            (snd (snd (Make (snd (SliceField (New ''json'') ''Tags'' ''tags'' (Some TInt) []))
                         [Array [VInt 1, VInt 2]])))
            ''Tags'' (Plain (Some (TSlice TInt, VSlice (Some 0)))))"

definition taggedCopy :: "Struct result \<times> heap" where
  "taggedCopy = DeepCopy unquotePlain tagged taggedHeap"

definition taggedType :: gtype where
  "taggedType = TStruct [(''Tags'', encTag ''json'' ''tags'' False, TSlice TInt, False)]"

text \<open>
  Claim C1 asks that no write through the copy shows in the source. \<^verbatim>\<open>DeepCopy\<close> copies the
  instance with one \<^verbatim>\<open>Set\<close> of the whole struct value, so a slice field of the copy is the
  same slice as in the source: here the copy is made, the source's \<^verbatim>\<open>Tags\<close> shows 1 and 2,
  element 0 of the copy's \<^verbatim>\<open>Tags\<close> is set to 9, and the source's \<^verbatim>\<open>Tags\<close> shows 9 and 2.
\<close>

theorem DeepCopy_shares_slice:
  "taggedCopy =
     (Ok (tagged\<lparr>structValue := Ref taggedType 2 [] False\<rparr>),
      [Array [VInt 1, VInt 2], Cell (VStruct [VSlice (Some 0)]), Cell (VStruct [VSlice (Some 0)])])
   \<and> SliceElems [Array [VInt 1, VInt 2], Cell (VStruct [VSlice (Some 0)]), Cell (VStruct [VSlice (Some 0)])]
        (GetField tagged
           [Array [VInt 1, VInt 2], Cell (VStruct [VSlice (Some 0)]), Cell (VStruct [VSlice (Some 0)])]
           ''Tags'')
       = Some [VInt 1, VInt 2]
   \<and> SliceAssign [Array [VInt 1, VInt 2], Cell (VStruct [VSlice (Some 0)]), Cell (VStruct [VSlice (Some 0)])]
        (GetField (tagged\<lparr>structValue := Ref taggedType 2 [] False\<rparr>)
           [Array [VInt 1, VInt 2], Cell (VStruct [VSlice (Some 0)]), Cell (VStruct [VSlice (Some 0)])]
           ''Tags'')
        0 (VInt 9)
       = Ok [Array [VInt 9, VInt 2], Cell (VStruct [VSlice (Some 0)]), Cell (VStruct [VSlice (Some 0)])]
   \<and> SliceElems [Array [VInt 9, VInt 2], Cell (VStruct [VSlice (Some 0)]), Cell (VStruct [VSlice (Some 0)])]
        (GetField tagged
           [Array [VInt 9, VInt 2], Cell (VStruct [VSlice (Some 0)]), Cell (VStruct [VSlice (Some 0)])]
           ''Tags'')
       = Some [VInt 9, VInt 2]"
  by code_simp

section \<open>Places in a heap cell\<close>










text \<open>The type of the place at a path inside a value of a type.\<close>

fun placeType :: "gtype \<Rightarrow> nat list \<Rightarrow> gtype option" where
  "placeType t [] = Some t"
| "placeType t (i # r) =
     (case fields_t t of
        None \<Rightarrow> None
      | Some fs \<Rightarrow> if i < length fs then placeType (fst (snd (snd (fs ! i)))) r else None)"





lemma placeType_inj: "placeType t p = Some u \<Longrightarrow> placeType t p = Some u' \<Longrightarrow> u = u'"
  by simp



section \<open>The scan between two records\<close>




















































end
